theory Spec2Isabelle
  imports
    Complex_Main
    "HOL-Library.Sublist"
    "HOL-Library.Char_ord"
    "HOL-Library.List_Lexorder"
begin

section \<open>photocatalog-api: shared vocabulary\<close>

text \<open>
  The service (server.js) and the indexer (index_nas.js) talk to three collaborators that
  are not part of the repository: the libraries (jsonwebtoken, bcrypt, mime-types, path),
  the PostgreSQL store reached through a pool, and the file system of the NAS. The
  libraries are parameters of the handlers, the store and the file system are explicit
  state. A header and a route parameter are strings. A field of the JSON body is any JSON
  value, and a query parameter is a string, or an array or an object when the parameter is
  repeated or written with brackets. A value that is absent is \<open>None\<close> (JavaScript's
  undefined).
\<close>

datatype js_value =
    JNull
  | JBool bool
  | JNumber real
  | JString string
  | JArray "js_value list"
  | JObject "(string \<times> js_value) list"

text \<open>
  JavaScript truthiness: undefined, null, false, 0 and the empty string are falsy, every
  array and object is truthy.
\<close>

definition truthy :: "string option \<Rightarrow> bool" where
  "truthy v = (case v of None \<Rightarrow> False | Some s \<Rightarrow> s \<noteq> [])"

definition truthy_value :: "js_value \<Rightarrow> bool" where
  "truthy_value v =
     (case v of
        JNull \<Rightarrow> False
      | JBool b \<Rightarrow> b
      | JNumber n \<Rightarrow> n \<noteq> 0
      | JString s \<Rightarrow> s \<noteq> []
      | JArray _ \<Rightarrow> True
      | JObject _ \<Rightarrow> True)"

definition truthy_js :: "js_value option \<Rightarrow> bool" where
  "truthy_js v = (case v of None \<Rightarrow> False | Some x \<Rightarrow> truthy_value x)"

text \<open>
  Where a request value goes into a statement parameter the pg driver sends a string as it
  is and turns any other value into text (\<open>prepareValue\<close>); where it goes into a template
  literal JavaScript does the same with its own conversion. The conversions of the values
  that are not strings are parameters, \<open>pg_text\<close> and \<open>js_text\<close>.
\<close>

type_synonym to_text = "js_value \<Rightarrow> string"

definition prepareValue :: "to_text \<Rightarrow> js_value \<Rightarrow> string" where
  "prepareValue pg_text v = (case v of JString s \<Rightarrow> s | _ \<Rightarrow> pg_text v)"

definition template :: "to_text \<Rightarrow> js_value \<Rightarrow> string" where
  "template js_text v = (case v of JString s \<Rightarrow> s | _ \<Rightarrow> js_text v)"

text \<open>
  The texts of the JSON bodies hold non-ASCII characters; each is a constructor named after
  the server's text. A text built from a request value carries that value.
\<close>

datatype message =
    Token_nao_fornecido                 \<comment> \<open>Acesso negado. Token nao fornecido.\<close>
  | Token_invalido_ou_expirado          \<comment> \<open>Token invalido ou expirado.\<close>
  | Acesso_admin_nao_autorizado         \<comment> \<open>Acesso de administrador nao autorizado.\<close>
  | Usuario_e_senha_obrigatorios        \<comment> \<open>Usuario e senha sao obrigatorios.\<close>
  | Credenciais_invalidas               \<comment> \<open>Credenciais invalidas.\<close>
  | Erro_interno_login                  \<comment> \<open>Erro interno ao tentar fazer login.\<close>
  | Bem_vindo string                    \<comment> \<open>Bem-vindo, <name>!\<close>
  | Erro_interno_lista_pecas            \<comment> \<open>Erro interno ao buscar lista de pecas.\<close>
  | Cod_peca_obrigatorio                \<comment> \<open>O codigo da peca (cod_peca) e obrigatorio na query URL.\<close>
  | Codigo_nao_encontrado               \<comment> \<open>Codigo de peca nao encontrado no catalogo.\<close>
  | Erro_interno_catalogo_arquivos      \<comment> \<open>Erro interno ao acessar o catalogo de arquivos.\<close>
  | Peca_nao_encontrada                 \<comment> \<open>Peca nao encontrada no catalogo.\<close>
  | Erro_ao_ler_arquivo                 \<comment> \<open>Erro ao ler o arquivo da peca.\<close>
  | Erro_interno_foto                   \<comment> \<open>Erro interno do servidor ao acessar a foto.\<close>
  | Senhas_obrigatorias                 \<comment> \<open>Senha antiga e nova senha sao obrigatorias.\<close>
  | Usuario_nao_encontrado              \<comment> \<open>Usuario nao encontrado.\<close>
  | Senha_antiga_incorreta              \<comment> \<open>Senha antiga incorreta.\<close>
  | Senha_alterada                      \<comment> \<open>Senha alterada com sucesso!\<close>
  | Erro_interno_alterar_senha          \<comment> \<open>Erro interno ao alterar a senha.\<close>
  | Alvo_e_senha_obrigatorios           \<comment> \<open>Usuario-alvo e nova senha sao obrigatorios.\<close>
  | Usuario_alvo_nao_encontrado js_value  \<comment> \<open>Usuario '<login>' nao encontrado.\<close>
  | Senha_resetada js_value             \<comment> \<open>Senha para '<login>' resetada com sucesso.\<close>
  | Erro_interno_resetar_senha          \<comment> \<open>Erro interno ao resetar a senha.\<close>

record foto =
  filename :: string
  url :: string

datatype body =
    Error_json message "string option" "string option"
      \<comment> \<open>\<open>{error, details, path_tried}\<close>; the last two are undefined where the handler gives none\<close>
  | Message_json message                \<comment> \<open>\<open>{message}\<close>\<close>
  | Login_json message string           \<comment> \<open>\<open>{message, token}\<close>\<close>
  | Codes_json "string list"            \<comment> \<open>a flat JSON array of part codes\<close>
  | Search_json js_value "foto list"    \<comment> \<open>\<open>{cod_peca, fotos}\<close>\<close>
  | File_stream string "nat list" bool
      \<comment> \<open>Content-Type, the bytes piped to the client, and whether the stream ended cleanly\<close>
  | Error_page
      \<comment> \<open>the page of Express's own error handler, for an error no handler caught\<close>

record response =
  status :: nat
  body :: body

record request =
  authorization :: "string option"      \<comment> \<open>\<open>req.headers['authorization']\<close>\<close>
  x_admin_key :: "string option"        \<comment> \<open>\<open>req.headers['x-admin-key']\<close>\<close>
  query_token :: "js_value option"      \<comment> \<open>\<open>req.query.token\<close>\<close>
  query_cod_peca :: "js_value option"   \<comment> \<open>\<open>req.query.cod_peca\<close>\<close>
  param_codPeca :: string               \<comment> \<open>\<open>req.params.codPeca\<close>\<close>
  param_filename :: string              \<comment> \<open>\<open>req.params.filename\<close>\<close>
  body_usuario :: "js_value option"     \<comment> \<open>\<open>req.body.usuario\<close>\<close>
  body_senha :: "js_value option"       \<comment> \<open>\<open>req.body.senha\<close>\<close>
  body_senhaAntiga :: "js_value option" \<comment> \<open>\<open>req.body.senhaAntiga\<close>\<close>
  body_novaSenha :: "js_value option"   \<comment> \<open>\<open>req.body.novaSenha\<close>\<close>

section \<open>Auth Guard (server.js, section 6)\<close>

text \<open>The claims a token decodes to: \<open>{id, usuario}\<close>, as Login signs them.\<close>

record decoded =
  tok_id :: nat
  tok_usuario :: string

text \<open>What jsonwebtoken's verify throws.\<close>

datatype jwt_error = JsonWebTokenError | TokenExpiredError

text \<open>
  \<open>jwt.verify(token, JWT_SECRET)\<close> is the parameter \<open>jwt_verify\<close>: \<open>Inl\<close> is the
  exception (a bad signature, a malformed token or a missing secret is JsonWebTokenError, a
  token past its expiry is TokenExpiredError), \<open>Inr\<close> the decoded claims.
\<close>

type_synonym jwt_verify = "string \<Rightarrow> jwt_error + decoded"

text \<open>The token verifyToken reads: the header, or the query parameter when the header is falsy.\<close>

definition token_of :: "request \<Rightarrow> js_value option" where
  "token_of req =
     (if \<not> truthy (authorization req) \<and> truthy_js (query_token req)
      then query_token req else map_option JString (authorization req))"

text \<open>\<open>if (token.startsWith('Bearer ')) token = token.slice(7, token.length)\<close>\<close>

definition strip_bearer :: "string \<Rightarrow> string" where
  "strip_bearer token = (if prefix ''Bearer '' token then drop 7 token else token)"

text \<open>
  What a middleware does with a request: it sends a response itself, it calls \<open>next()\<close>
  with \<open>req.user\<close> set to the decoded claims, or it throws. A token that is truthy and
  not a string has no \<open>startsWith\<close>, and the call on line 70 stands before the \<open>try\<close>:
  the TypeError leaves the middleware.
\<close>

datatype guard = Respond response | Next decoded | Throw_TypeError

definition verifyToken :: "jwt_verify \<Rightarrow> request \<Rightarrow> guard" where
  "verifyToken jwt_verify req =
     (if \<not> truthy_js (token_of req)
      then Respond \<lparr>status = 401, body = Error_json Token_nao_fornecido None None\<rparr>
      else
        (case token_of req of
           None \<Rightarrow> Respond \<lparr>status = 401, body = Error_json Token_nao_fornecido None None\<rparr>
         | Some (JString token) \<Rightarrow>
             (case jwt_verify (strip_bearer token) of
                Inr user \<Rightarrow> Next user
              | Inl error \<Rightarrow>
                  Respond \<lparr>status = 403, body = Error_json Token_invalido_ou_expirado None None\<rparr>)
         | Some _ \<Rightarrow> Throw_TypeError))"

text \<open>
  An error that leaves a middleware reaches Express's own error handler, which answers 500
  with its error page.
\<close>

definition express_error :: response where
  "express_error = \<lparr>status = 500, body = Error_page\<rparr>"

text \<open>
  verifyAdminKey: \<open>ADMIN_API_KEY\<close> is \<open>process.env.ADMIN_API_KEY\<close>, undefined when the
  variable is not set. \<open>adminKey !== ADMIN_API_KEY\<close> is strict inequality of two values
  that are each a string or undefined. \<open>Inr ()\<close> is \<open>next()\<close>.
\<close>

definition verifyAdminKey :: "string option \<Rightarrow> request \<Rightarrow> response + unit" where
  "verifyAdminKey ADMIN_API_KEY req =
     (let adminKey = x_admin_key req in
      if \<not> truthy adminKey \<or> adminKey \<noteq> ADMIN_API_KEY
      then Inl \<lparr>status = 403, body = Error_json Acesso_admin_nao_autorizado None None\<rparr>
      else Inr ())"

section \<open>Paths (Node's path module, POSIX flavour)\<close>

text \<open>
  Both programs build file names with \<open>path.join\<close>, which is Node's own and not part of
  the repository. The model follows its documented behaviour on a POSIX host: the non-empty
  arguments are glued with the separator and the result is normalised, which drops empty
  and \<open>.\<close> segments and lets a \<open>..\<close> segment remove the segment before it.
\<close>

text \<open>\<open>s.split('/')\<close>: the pieces of \<open>s\<close> between separators, never an empty list.\<close>

fun split_sep :: "string \<Rightarrow> string list" where
  "split_sep [] = [[]]"
| "split_sep (c # cs) =
     (if c = CHR ''/'' then [] # split_sep cs
      else (case split_sep cs of [] \<Rightarrow> [[c]] | s # ss \<Rightarrow> (c # s) # ss))"

text \<open>\<open>segs.join('/')\<close>\<close>

fun join_sep :: "string list \<Rightarrow> string" where
  "join_sep [] = []"
| "join_sep [s] = s"
| "join_sep (s # t # ss) = s @ ''/'' @ join_sep (t # ss)"

text \<open>
  One segment of normalizeString: \<open>res\<close> is the list of segments kept so far. A \<open>..\<close>
  removes the last kept segment unless there is none or it is \<open>..\<close> itself; then it is
  kept when the path is relative (\<open>allowAboveRoot\<close>) and dropped at the root.
\<close>

definition normalize_segment :: "bool \<Rightarrow> string list \<Rightarrow> string \<Rightarrow> string list" where
  "normalize_segment allowAboveRoot res seg =
     (if seg = [] \<or> seg = ''.'' then res
      else if seg = ''..'' then
        (if res \<noteq> [] \<and> last res \<noteq> ''..'' then butlast res
         else if allowAboveRoot then res @ [''..''] else res)
      else res @ [seg])"

definition normalizeString :: "bool \<Rightarrow> string list \<Rightarrow> string list" where
  "normalizeString allowAboveRoot segs = foldl (normalize_segment allowAboveRoot) [] segs"

definition isAbsolute :: "string \<Rightarrow> bool" where
  "isAbsolute p = (case p of [] \<Rightarrow> False | c # _ \<Rightarrow> c = CHR ''/'')"

definition trailingSeparator :: "string \<Rightarrow> bool" where
  "trailingSeparator p = (p \<noteq> [] \<and> last p = CHR ''/'')"

text \<open>The segments a path resolves to.\<close>

definition resolved :: "string \<Rightarrow> string list" where
  "resolved p = normalizeString (\<not> isAbsolute p) (split_sep p)"

definition path_normalize :: "string \<Rightarrow> string" where
  "path_normalize p =
     (if p = [] then ''.''
      else if resolved p = [] then
        (if isAbsolute p then ''/'' else if trailingSeparator p then ''./'' else ''.'')
      else
        (if isAbsolute p then ''/'' else []) @ join_sep (resolved p)
          @ (if trailingSeparator p then ''/'' else []))"

definition path_join :: "string list \<Rightarrow> string" where
  "path_join args =
     (case filter (\<lambda>arg. arg \<noteq> []) args of
        [] \<Rightarrow> ''.''
      | a # as \<Rightarrow> path_normalize (join_sep (a # as)))"

text \<open>
  A path lies inside a directory when both are of the same kind (absolute or relative), the
  directory's resolved segments are a prefix of the path's, and what follows the prefix
  does not climb out again with a \<open>..\<close> segment.
\<close>

definition inside_dir :: "string \<Rightarrow> string \<Rightarrow> bool" where
  "inside_dir dir p =
     (isAbsolute p = isAbsolute dir \<and> prefix (resolved dir) (resolved p)
      \<and> ''..'' \<notin> set (drop (length (resolved dir)) (resolved p)))"

section \<open>The file system of the NAS\<close>

text \<open>
  What \<open>fs\<close> answers for a path; an error is its \<open>code\<close> (\<open>ENOENT\<close>, \<open>EACCES\<close>, ...).
  A read stream either delivers the whole file, or emits \<open>error\<close> after the bytes it has
  delivered so far (none when the file cannot be opened); \<open>fs.createReadStream\<close> throws
  at once for a path it refuses, such as one with a NUL character in it.
\<close>

datatype read_result = Read_ok "nat list" | Read_failed "nat list" string | Read_threw

record filesystem =
  readdir :: "string \<Rightarrow> string + string list"
  stat_isDirectory :: "string \<Rightarrow> string + bool"   \<comment> \<open>\<open>(await fs.stat(p)).isDirectory()\<close>\<close>
  createReadStream :: "string \<Rightarrow> read_result"

section \<open>The store\<close>

text \<open>
  The two tables, and the store's health: \<open>connect_error\<close> is the error with which the
  pool fails to hand out a connection, \<open>query_error\<close> the one with which a statement fails
  on a connection; an error is its \<open>code\<close>, which may be undefined. The health is part of
  the state and no operation changes it.
\<close>

record usuario_row =
  usuario_id :: nat                     \<comment> \<open>column \<open>id\<close>\<close>
  usuario :: string
  senha_hash :: string
  nome_completo :: "string option"

record peca_row =
  cod_peca :: string
  caminho_nas :: string
  data_indexacao :: nat

record database =
  usuarios :: "usuario_row list"
  catalogo_pecas :: "peca_row list"
  connect_error :: "string option option"
  query_error :: "string option option"

text \<open>
  \<open>client.query\<close> runs a statement on a connection, \<open>pool.query\<close> takes a connection
  first: \<open>Inl\<close> is the error the promise rejects with, \<open>Inr\<close> what the statement yields.
  A statement is a function of the tables.
\<close>

definition client_query :: "database \<Rightarrow> (database \<Rightarrow> 'a) \<Rightarrow> string option + 'a" where
  "client_query db statement =
     (case query_error db of Some err \<Rightarrow> Inl err | None \<Rightarrow> Inr (statement db))"

definition pool_query :: "database \<Rightarrow> (database \<Rightarrow> 'a) \<Rightarrow> string option + 'a" where
  "pool_query db statement =
     (case connect_error db of Some err \<Rightarrow> Inl err | None \<Rightarrow> client_query db statement)"

text \<open>\<open>SELECT * FROM usuarios WHERE usuario = $1\<close>\<close>

definition select_usuarios_by_usuario :: "database \<Rightarrow> string \<Rightarrow> usuario_row list" where
  "select_usuarios_by_usuario db login = filter (\<lambda>row. usuario row = login) (usuarios db)"

text \<open>\<open>SELECT senha_hash FROM usuarios WHERE id = $1\<close>\<close>

definition select_senha_hash_by_id :: "database \<Rightarrow> nat \<Rightarrow> string list" where
  "select_senha_hash_by_id db userId =
     map senha_hash (filter (\<lambda>row. usuario_id row = userId) (usuarios db))"

text \<open>\<open>UPDATE usuarios SET senha_hash = $1 WHERE id = $2\<close>\<close>

definition update_senha_hash_by_id :: "database \<Rightarrow> string \<Rightarrow> nat \<Rightarrow> database" where
  "update_senha_hash_by_id db hash userId =
     db\<lparr>usuarios :=
          map (\<lambda>row. if usuario_id row = userId then row\<lparr>senha_hash := hash\<rparr> else row)
            (usuarios db)\<rparr>"

text \<open>\<open>UPDATE usuarios SET senha_hash = $1 WHERE usuario = $2\<close>, with its \<open>rowCount\<close>.\<close>

definition update_senha_hash_by_usuario :: "database \<Rightarrow> string \<Rightarrow> string \<Rightarrow> nat \<times> database" where
  "update_senha_hash_by_usuario db hash login =
     (length (filter (\<lambda>row. usuario row = login) (usuarios db)),
      db\<lparr>usuarios :=
           map (\<lambda>row. if usuario row = login then row\<lparr>senha_hash := hash\<rparr> else row)
             (usuarios db)\<rparr>)"

text \<open>
  \<open>SELECT cod_peca FROM catalogo_pecas ORDER BY cod_peca ASC\<close>. Strings are compared
  lexicographically, character by character.
\<close>

definition select_cod_peca_ordered :: "database \<Rightarrow> string list" where
  "select_cod_peca_ordered db = map cod_peca (sort_key cod_peca (catalogo_pecas db))"

text \<open>\<open>SELECT caminho_nas FROM catalogo_pecas WHERE cod_peca = $1\<close>\<close>

definition select_caminho_nas :: "database \<Rightarrow> string \<Rightarrow> string list" where
  "select_caminho_nas db cod = map caminho_nas (filter (\<lambda>row. cod_peca row = cod) (catalogo_pecas db))"

text \<open>
  \<open>INSERT INTO catalogo_pecas (cod_peca, caminho_nas) VALUES ($1, $2) ON CONFLICT (cod_peca)
  DO UPDATE SET caminho_nas = EXCLUDED.caminho_nas, data_indexacao = CURRENT_TIMESTAMP\<close>:
  the row with this code gets the new path and the current time, or a new row is added.
\<close>

text \<open>
  Modelled from the spec: the declaration of table catalogo_pecas (the default of column
  \<open>data_indexacao\<close>) is not in the repository. After the spec's data model, where a
  CatalogEntry has a last-indexed timestamp, a new row's \<open>data_indexacao\<close> is the time of
  the insert.
\<close>

fun upsert_peca :: "string \<Rightarrow> string \<Rightarrow> nat \<Rightarrow> peca_row list \<Rightarrow> peca_row list" where
  "upsert_peca cod caminho now [] =
     [\<lparr>cod_peca = cod, caminho_nas = caminho, data_indexacao = now\<rparr>]"
| "upsert_peca cod caminho now (row # rows) =
     (if cod_peca row = cod
      then row\<lparr>caminho_nas := caminho, data_indexacao := now\<rparr> # rows
      else row # upsert_peca cod caminho now rows)"

definition upsert_catalogo :: "database \<Rightarrow> string \<Rightarrow> string \<Rightarrow> nat \<Rightarrow> database" where
  "upsert_catalogo db cod caminho now =
     db\<lparr>catalogo_pecas := upsert_peca cod caminho now (catalogo_pecas db)\<rparr>"

section \<open>Catalog Service (server.js, sections 7 and 8)\<close>

text \<open>
  The library calls are parameters: \<open>bcrypt_compare senha hash\<close> is what
  \<open>bcrypt.compare\<close> resolves to, \<open>bcrypt_hash senha saltRounds\<close> what \<open>bcrypt.hash\<close>
  resolves to (the salt it draws is the environment's), \<open>jwt_sign\<close> is
  \<open>jwt.sign(claims, JWT_SECRET, {expiresIn: '1d'})\<close> with \<open>None\<close> when it throws, and
  \<open>mime_lookup\<close> is \<open>mime.lookup\<close> with \<open>None\<close> for its \<open>false\<close>.
  A handler that writes returns the store with its response.
\<close>

type_synonym bcrypt_compare = "string \<Rightarrow> string \<Rightarrow> bool"
type_synonym bcrypt_hash = "string \<Rightarrow> nat \<Rightarrow> string"
type_synonym jwt_sign = "decoded \<Rightarrow> string option"
type_synonym mime_lookup = "string \<Rightarrow> string option"

text \<open>
  bcrypt checks its argument before it works: for data that is not a string the promise of
  \<open>bcrypt.compare\<close> and of \<open>bcrypt.hash\<close> rejects (\<open>None\<close>), and the handler's
  \<open>catch\<close> takes over.
\<close>

definition compare_promise :: "bcrypt_compare \<Rightarrow> js_value \<Rightarrow> string \<Rightarrow> bool option" where
  "compare_promise bcrypt_compare data hash =
     (case data of JString s \<Rightarrow> Some (bcrypt_compare s hash) | _ \<Rightarrow> None)"

definition hash_promise :: "bcrypt_hash \<Rightarrow> js_value \<Rightarrow> nat \<Rightarrow> string option" where
  "hash_promise bcrypt_hash data saltRounds =
     (case data of JString s \<Rightarrow> Some (bcrypt_hash s saltRounds) | _ \<Rightarrow> None)"

definition json_error :: "nat \<Rightarrow> message \<Rightarrow> response" where
  "json_error code msg = \<lparr>status = code, body = Error_json msg None None\<rparr>"

text \<open>POST /api/login. The greeting uses \<open>user.nome_completo || user.usuario\<close>.\<close>

definition welcome_name :: "usuario_row \<Rightarrow> string" where
  "welcome_name user =
     (case nome_completo user of
        None \<Rightarrow> usuario user
      | Some nome \<Rightarrow> if nome \<noteq> [] then nome else usuario user)"

definition login_handler ::
  "to_text \<Rightarrow> bcrypt_compare \<Rightarrow> jwt_sign \<Rightarrow> database \<Rightarrow> request \<Rightarrow> response" where
  "login_handler pg_text bcrypt_compare jwt_sign db req =
     (if \<not> truthy_js (body_usuario req) \<or> \<not> truthy_js (body_senha req)
      then json_error 400 Usuario_e_senha_obrigatorios
      else
        (case (body_usuario req, body_senha req) of
           (Some login, Some senha) \<Rightarrow>
             (case pool_query db (\<lambda>d. select_usuarios_by_usuario d (prepareValue pg_text login)) of
                Inl err \<Rightarrow> json_error 500 Erro_interno_login
              | Inr [] \<Rightarrow> json_error 401 Credenciais_invalidas
              | Inr (user # _) \<Rightarrow>
                  (case compare_promise bcrypt_compare senha (senha_hash user) of
                     None \<Rightarrow> json_error 500 Erro_interno_login
                   | Some match \<Rightarrow>
                       if \<not> match
                       then json_error 401 Credenciais_invalidas
                       else
                         (case jwt_sign \<lparr>tok_id = usuario_id user, tok_usuario = usuario user\<rparr> of
                            None \<Rightarrow> json_error 500 Erro_interno_login
                          | Some token \<Rightarrow>
                              \<lparr>status = 200,
                               body = Login_json (Bem_vindo (welcome_name user)) token\<rparr>)))
         | _ \<Rightarrow> json_error 400 Usuario_e_senha_obrigatorios))"

text \<open>GET /api/catalog/all, after verifyToken\<close>

definition catalog_all_handler :: "database \<Rightarrow> response" where
  "catalog_all_handler db =
     (case pool_query db select_cod_peca_ordered of
        Inl err \<Rightarrow> json_error 500 Erro_interno_lista_pecas
      | Inr codes \<Rightarrow> \<lparr>status = 200, body = Codes_json codes\<rparr>)"

definition catalog_all_route :: "jwt_verify \<Rightarrow> database \<Rightarrow> request \<Rightarrow> response" where
  "catalog_all_route jwt_verify db req =
     (case verifyToken jwt_verify req of
        Respond resp \<Rightarrow> resp
      | Next user \<Rightarrow> catalog_all_handler db
      | Throw_TypeError \<Rightarrow> express_error)"

text \<open>
  GET /api/search, after verifyToken. The listing is filtered by
  \<open>mimeType && mimeType.startsWith('image/')\<close> and mapped to \<open>{filename, url}\<close>.
\<close>

definition is_image :: "mime_lookup \<Rightarrow> string \<Rightarrow> bool" where
  "is_image mime_lookup file =
     (case mime_lookup file of None \<Rightarrow> False | Some mimeType \<Rightarrow> prefix ''image/'' mimeType)"

definition imageFiles :: "mime_lookup \<Rightarrow> string \<Rightarrow> string list \<Rightarrow> foto list" where
  "imageFiles mime_lookup cod files =
     map (\<lambda>file. \<lparr>filename = file, url = ''/api/photo/'' @ cod @ ''/'' @ file\<rparr>)
       (filter (is_image mime_lookup) files)"

definition search_handler ::
  "to_text \<Rightarrow> to_text \<Rightarrow> mime_lookup \<Rightarrow> database \<Rightarrow> filesystem \<Rightarrow> request \<Rightarrow> response" where
  "search_handler pg_text js_text mime_lookup db fs req =
     (case query_cod_peca req of
        None \<Rightarrow> json_error 400 Cod_peca_obrigatorio
      | Some cod \<Rightarrow>
          if \<not> truthy_value cod then json_error 400 Cod_peca_obrigatorio
          else
            (case pool_query db (\<lambda>d. select_caminho_nas d (prepareValue pg_text cod)) of
               Inl err \<Rightarrow>
                 \<lparr>status = 500, body = Error_json Erro_interno_catalogo_arquivos err None\<rparr>
             | Inr [] \<Rightarrow> json_error 404 Codigo_nao_encontrado
             | Inr (absolutePath # _) \<Rightarrow>
                 (case readdir fs absolutePath of
                    Inl code \<Rightarrow>
                      \<lparr>status = 500,
                       body = Error_json Erro_interno_catalogo_arquivos (Some code) None\<rparr>
                  | Inr files \<Rightarrow>
                      \<lparr>status = 200,
                       body = Search_json cod
                                (imageFiles mime_lookup (template js_text cod) files)\<rparr>)))"

definition search_route ::
  "jwt_verify \<Rightarrow> to_text \<Rightarrow> to_text \<Rightarrow> mime_lookup \<Rightarrow> database \<Rightarrow> filesystem \<Rightarrow> request
     \<Rightarrow> response" where
  "search_route jwt_verify pg_text js_text mime_lookup db fs req =
     (case verifyToken jwt_verify req of
        Respond resp \<Rightarrow> resp
      | Next user \<Rightarrow> search_handler pg_text js_text mime_lookup db fs req
      | Throw_TypeError \<Rightarrow> express_error)"

text \<open>
  GET /api/photo/:codPeca/:filename, after verifyToken. The stream's \<open>error\<close> handler
  answers 500 unless the headers are already sent, which is when bytes have been piped.
  When \<open>fs.createReadStream\<close> itself throws, the handler's own \<open>catch\<close> answers.
\<close>

definition photo_handler :: "mime_lookup \<Rightarrow> database \<Rightarrow> filesystem \<Rightarrow> request \<Rightarrow> response" where
  "photo_handler mime_lookup db fs req =
     (case pool_query db (\<lambda>d. select_caminho_nas d (param_codPeca req)) of
        Inl err \<Rightarrow> json_error 500 Erro_interno_foto
      | Inr [] \<Rightarrow> json_error 404 Peca_nao_encontrada
      | Inr (caminho # _) \<Rightarrow>
          (let absolutePath = path_join [caminho, param_filename req];
               contentType = (case mime_lookup (param_filename req) of
                                Some mimeType \<Rightarrow> mimeType | None \<Rightarrow> ''image/jpeg'')
           in case createReadStream fs absolutePath of
                Read_ok bytes \<Rightarrow> \<lparr>status = 200, body = File_stream contentType bytes True\<rparr>
              | Read_failed bytes code \<Rightarrow>
                  if bytes \<noteq> []
                  then \<lparr>status = 200, body = File_stream contentType bytes False\<rparr>
                  else \<lparr>status = 500,
                        body = Error_json Erro_ao_ler_arquivo (Some code) (Some absolutePath)\<rparr>
              | Read_threw \<Rightarrow> json_error 500 Erro_interno_foto))"

definition photo_route :: "jwt_verify \<Rightarrow> mime_lookup \<Rightarrow> database \<Rightarrow> filesystem \<Rightarrow> request \<Rightarrow> response" where
  "photo_route jwt_verify mime_lookup db fs req =
     (case verifyToken jwt_verify req of
        Respond resp \<Rightarrow> resp
      | Next user \<Rightarrow> photo_handler mime_lookup db fs req
      | Throw_TypeError \<Rightarrow> express_error)"

text \<open>POST /api/change-password, after verifyToken; \<open>user\<close> is \<open>req.user\<close>.\<close>

definition change_password_handler ::
  "bcrypt_compare \<Rightarrow> bcrypt_hash \<Rightarrow> database \<Rightarrow> decoded \<Rightarrow> request \<Rightarrow> response \<times> database" where
  "change_password_handler bcrypt_compare bcrypt_hash db user req =
     (if \<not> truthy_js (body_senhaAntiga req) \<or> \<not> truthy_js (body_novaSenha req)
      then (json_error 400 Senhas_obrigatorias, db)
      else
        (case (body_senhaAntiga req, body_novaSenha req) of
           (Some senhaAntiga, Some novaSenha) \<Rightarrow>
             (case pool_query db (\<lambda>d. select_senha_hash_by_id d (tok_id user)) of
                Inl err \<Rightarrow> (json_error 500 Erro_interno_alterar_senha, db)
              | Inr [] \<Rightarrow> (json_error 404 Usuario_nao_encontrado, db)
              | Inr (hash # _) \<Rightarrow>
                  (case compare_promise bcrypt_compare senhaAntiga hash of
                     None \<Rightarrow> (json_error 500 Erro_interno_alterar_senha, db)
                   | Some match \<Rightarrow>
                       if \<not> match
                       then (json_error 401 Senha_antiga_incorreta, db)
                       else
                         (case hash_promise bcrypt_hash novaSenha 10 of
                            None \<Rightarrow> (json_error 500 Erro_interno_alterar_senha, db)
                          | Some novaSenhaHash \<Rightarrow>
                              (case pool_query db
                                      (\<lambda>d. update_senha_hash_by_id d novaSenhaHash (tok_id user)) of
                                 Inl err \<Rightarrow> (json_error 500 Erro_interno_alterar_senha, db)
                               | Inr db' \<Rightarrow>
                                   (\<lparr>status = 200, body = Message_json Senha_alterada\<rparr>, db')))))
         | _ \<Rightarrow> (json_error 400 Senhas_obrigatorias, db)))"

definition change_password_route ::
  "jwt_verify \<Rightarrow> bcrypt_compare \<Rightarrow> bcrypt_hash \<Rightarrow> database \<Rightarrow> request \<Rightarrow> response \<times> database" where
  "change_password_route jwt_verify bcrypt_compare bcrypt_hash db req =
     (case verifyToken jwt_verify req of
        Respond resp \<Rightarrow> (resp, db)
      | Next user \<Rightarrow> change_password_handler bcrypt_compare bcrypt_hash db user req
      | Throw_TypeError \<Rightarrow> (express_error, db))"

text \<open>
  POST /api/admin/reset-password, after verifyAdminKey. The new password is hashed before
  the store is asked anything.
\<close>

definition reset_password_handler ::
  "to_text \<Rightarrow> bcrypt_hash \<Rightarrow> database \<Rightarrow> request \<Rightarrow> response \<times> database" where
  "reset_password_handler pg_text bcrypt_hash db req =
     (if \<not> truthy_js (body_usuario req) \<or> \<not> truthy_js (body_novaSenha req)
      then (json_error 400 Alvo_e_senha_obrigatorios, db)
      else
        (case (body_usuario req, body_novaSenha req) of
           (Some login, Some novaSenha) \<Rightarrow>
             (case hash_promise bcrypt_hash novaSenha 10 of
                None \<Rightarrow> (json_error 500 Erro_interno_resetar_senha, db)
              | Some novaSenhaHash \<Rightarrow>
                  (case pool_query db
                          (\<lambda>d. update_senha_hash_by_usuario d novaSenhaHash
                                 (prepareValue pg_text login)) of
                     Inl err \<Rightarrow> (json_error 500 Erro_interno_resetar_senha, db)
                   | Inr (rowCount, db') \<Rightarrow>
                       if rowCount = 0
                       then (json_error 404 (Usuario_alvo_nao_encontrado login), db')
                       else (\<lparr>status = 200, body = Message_json (Senha_resetada login)\<rparr>, db')))
         | _ \<Rightarrow> (json_error 400 Alvo_e_senha_obrigatorios, db)))"

definition reset_password_route ::
  "string option \<Rightarrow> to_text \<Rightarrow> bcrypt_hash \<Rightarrow> database \<Rightarrow> request \<Rightarrow> response \<times> database" where
  "reset_password_route ADMIN_API_KEY pg_text bcrypt_hash db req =
     (case verifyAdminKey ADMIN_API_KEY req of
        Inl resp \<Rightarrow> (resp, db)
      | Inr _ \<Rightarrow> reset_password_handler pg_text bcrypt_hash db req)"

section \<open>Indexer (index_nas.js)\<close>

text \<open>
  The state of a run: the store and the two counters \<open>indexedCount\<close> and \<open>errorCount\<close>.
\<close>

record run =
  store :: database
  indexedCount :: nat
  errorCount :: nat

text \<open>
  The body of \<open>items.map(async (itemName) => ...)\<close> for one item. A rejection of
  \<open>fs.stat\<close> or of \<open>client.query\<close> lands in the same \<open>catch\<close>, which counts it.
\<close>

definition process_item :: "filesystem \<Rightarrow> string \<Rightarrow> nat \<Rightarrow> run \<Rightarrow> string \<Rightarrow> run" where
  "process_item fs NAS_ROOT_PATH now r itemName =
     (let itemPath = path_join [NAS_ROOT_PATH, itemName] in
      case stat_isDirectory fs itemPath of
        Inl fsErr \<Rightarrow> r\<lparr>errorCount := errorCount r + 1\<rparr>
      | Inr isDirectory \<Rightarrow>
          if isDirectory then
            (case client_query (store r) (\<lambda>d. upsert_catalogo d itemName itemPath now) of
               Inl fsErr \<Rightarrow> r\<lparr>errorCount := errorCount r + 1\<rparr>
             | Inr db' \<Rightarrow> r\<lparr>store := db', indexedCount := indexedCount r + 1\<rparr>)
          else r)"

text \<open>
  startIndexing: connect, list the root, process every item, report the counters. The items
  run concurrently in the source and each one's effect is a single statement on the one
  client; the model applies their effects in the order of the listing. \<open>now\<close> is the
  store's clock during the run.
\<close>

definition startIndexing :: "filesystem \<Rightarrow> string \<Rightarrow> nat \<Rightarrow> database \<Rightarrow> run" where
  "startIndexing fs NAS_ROOT_PATH now db =
     (case connect_error db of
        Some err \<Rightarrow> \<lparr>store = db, indexedCount = 0, errorCount = 0\<rparr>
      | None \<Rightarrow>
          (case readdir fs NAS_ROOT_PATH of
             Inl err \<Rightarrow> \<lparr>store = db, indexedCount = 0, errorCount = 0\<rparr>
           | Inr items \<Rightarrow>
               foldl (process_item fs NAS_ROOT_PATH now)
                 \<lparr>store = db, indexedCount = 0, errorCount = 0\<rparr> items))"

section \<open>A sample environment\<close>

text \<open>
  Concrete collaborators on which the properties below are exercised: a request with
  nothing in it, a token verifier that knows one good and one expired token, a stand-in for
  bcrypt that verifies exactly the password that was hashed, a signer, a conversion to
  text, the three media types of mime-types that the examples need, a store with one user
  and two catalogue rows, and a NAS with two part directories and a stray file.
\<close>

definition no_request :: request where
  "no_request =
     \<lparr>authorization = None, x_admin_key = None, query_token = None, query_cod_peca = None,
      param_codPeca = [], param_filename = [], body_usuario = None, body_senha = None,
      body_senhaAntiga = None, body_novaSenha = None\<rparr>"

definition sample_jwt_verify :: jwt_verify where
  "sample_jwt_verify token =
     (if token = ''tok-ana'' then Inr \<lparr>tok_id = 1, tok_usuario = ''ana''\<rparr>
      else if token = ''tok-old'' then Inl TokenExpiredError
      else Inl JsonWebTokenError)"

definition sample_hash :: bcrypt_hash where
  "sample_hash senha saltRounds = ''$'' @ senha"

definition sample_compare :: bcrypt_compare where
  "sample_compare senha hash = (hash = ''$'' @ senha)"

definition sample_sign :: jwt_sign where
  "sample_sign claims = Some (''tok-'' @ tok_usuario claims)"

definition sample_text :: to_text where
  "sample_text v = ''[value]''"

definition sample_mime :: mime_lookup where
  "sample_mime file =
     map_of [(''jpg'', ''image/jpeg''), (''png'', ''image/png''), (''txt'', ''text/plain'')]
       (rev (takeWhile (\<lambda>c. c \<noteq> CHR ''.'') (rev (''x.'' @ file))))"

definition sample_db :: database where
  "sample_db =
     \<lparr>usuarios = [\<lparr>usuario_id = 1, usuario = ''ana'', senha_hash = ''$pw1'',
                   nome_completo = Some ''Ana Lima''\<rparr>],
      catalogo_pecas =
        [\<lparr>cod_peca = ''PN-200'', caminho_nas = ''/nas/PN-200'', data_indexacao = 5\<rparr>,
         \<lparr>cod_peca = ''PN-100'', caminho_nas = ''/nas/PN-100'', data_indexacao = 5\<rparr>],
      connect_error = None, query_error = None\<rparr>"

definition sample_fs :: filesystem where
  "sample_fs =
     \<lparr>readdir = (\<lambda>p. if p = ''/nas'' then Inr [''PN-100'', ''PN-200'', ''readme.txt'']
                     else if p = ''/nas/PN-100'' then Inr [''a.jpg'', ''b.png'', ''notes.txt'']
                     else Inl ''ENOENT''),
      stat_isDirectory = (\<lambda>p. if p = ''/nas/PN-100'' \<or> p = ''/nas/PN-200'' then Inr True
                              else if p = ''/nas/readme.txt'' then Inr False
                              else Inl ''ENOENT''),
      createReadStream = (\<lambda>p. if p = ''/nas/PN-100/a.jpg'' then Read_ok [255, 216, 255]
                              else if p = ''/nas/PN-200/secret.jpg'' then Read_ok [7, 7, 7]
                              else Read_failed [] ''ENOENT'')\<rparr>"

text \<open>
  The status a middleware sends itself: \<open>None\<close> when it calls \<open>next()\<close> and when it
  throws.
\<close>

definition sent_status :: "guard \<Rightarrow> nat option" where
  "sent_status outcome =
     (case outcome of Respond resp \<Rightarrow> Some (status resp) | Next _ \<Rightarrow> None | Throw_TypeError \<Rightarrow> None)"

text \<open>A request with the token parameter given twice: \<open>?token=tok-ana&token=tok-old\<close>.\<close>

definition repeated_token_request :: request where
  "repeated_token_request =
     no_request\<lparr>query_token := Some (JArray [JString ''tok-ana'', JString ''tok-old''])\<rparr>"

definition wrong_old_request :: request where
  "wrong_old_request =
     no_request\<lparr>authorization := Some ''Bearer tok-ana'',
       body_senhaAntiga := Some (JString ''guess'')\<rparr>"

definition search_PN100 :: request where
  "search_PN100 =
     no_request\<lparr>authorization := Some ''Bearer tok-ana'',
       query_cod_peca := Some (JString ''PN-100'')\<rparr>"

definition reset_request :: "string \<Rightarrow> js_value \<Rightarrow> request" where
  "reset_request login novaSenha =
     no_request\<lparr>x_admin_key := Some ''k3y'', body_usuario := Some (JString login),
       body_novaSenha := Some novaSenha\<rparr>"

definition login_request :: "string \<Rightarrow> js_value \<Rightarrow> request" where
  "login_request login senha =
     no_request\<lparr>body_usuario := Some (JString login), body_senha := Some senha\<rparr>"

section \<open>Reading the outcome of an indexing run\<close>

text \<open>
  The catalogue as the claims look at it: its (part code, directory path) pairs and its
  (part code, timestamp) pairs, in row order. For a root listing, an item is a directory
  when \<open>fs.stat\<close> says so and is failing when \<open>fs.stat\<close> rejects. \<open>index_rows\<close> is
  the sequence of upserts a run makes for a list of directory names.
\<close>

definition code_paths :: "peca_row list \<Rightarrow> (string \<times> string) list" where
  "code_paths rows = map (\<lambda>row. (cod_peca row, caminho_nas row)) rows"

definition code_stamps :: "peca_row list \<Rightarrow> (string \<times> nat) list" where
  "code_stamps rows = map (\<lambda>row. (cod_peca row, data_indexacao row)) rows"

definition empty_catalogue :: database where
  "empty_catalogue = sample_db\<lparr>catalogo_pecas := []\<rparr>"

definition is_directory :: "filesystem \<Rightarrow> string \<Rightarrow> string \<Rightarrow> bool" where
  "is_directory fs nas_root itemName = (stat_isDirectory fs (path_join [nas_root, itemName]) = Inr True)"

definition stat_fails :: "filesystem \<Rightarrow> string \<Rightarrow> string \<Rightarrow> bool" where
  "stat_fails fs nas_root itemName = isl (stat_isDirectory fs (path_join [nas_root, itemName]))"

definition index_rows :: "string \<Rightarrow> nat \<Rightarrow> peca_row list \<Rightarrow> string list \<Rightarrow> peca_row list" where
  "index_rows nas_root now rows dirs =
     foldl (\<lambda>rows itemName. upsert_peca itemName (path_join [nas_root, itemName]) now rows) rows dirs"

section \<open>Resolved paths in normal form\<close>

text \<open>
  What normalizeString produces: segments without a separator, none empty and none \<open>.\<close>,
  and \<open>..\<close> segments only in front, and only for a relative path.
\<close>

definition no_slash :: "string \<Rightarrow> bool" where
  "no_slash s = (CHR ''/'' \<notin> set s)"

definition is_up :: "string \<Rightarrow> bool" where
  "is_up s = (s = ''..'')"

definition plain :: "string \<Rightarrow> bool" where
  "plain s = (s \<noteq> [] \<and> s \<noteq> ''.'' \<and> \<not> is_up s \<and> no_slash s)"

definition normal_form :: "bool \<Rightarrow> string list \<Rightarrow> bool" where
  "normal_form allowAboveRoot segs =
     ((\<forall>s\<in>set (dropWhile is_up segs). plain s)
      \<and> (allowAboveRoot \<or> (\<forall>s\<in>set segs. \<not> is_up s)))"

text \<open>Requests for a photo of part PN-100, and a NAS on which only one photo can be read.\<close>

definition photo_request :: "string \<Rightarrow> request" where
  "photo_request file =
     no_request\<lparr>authorization := Some ''Bearer tok-ana'', param_codPeca := ''PN-100'',
       param_filename := file\<rparr>"

definition locked_fs :: filesystem where
  "locked_fs =
     sample_fs\<lparr>createReadStream :=
       (\<lambda>p. if p = ''/nas/PN-100/a.jpg'' then Read_ok [255, 216, 255]
            else Read_failed [] ''EACCES'')\<rparr>"

section \<open>Properties of the Auth Guard\<close>

text \<open>
  C10. When the admin shared secret is not configured (\<open>ADMIN_API_KEY\<close> undefined), the
  admin-key check answers 403 Forbidden to every request, whatever the x-admin-key header
  holds or whether it is there at all: it never calls \<open>next()\<close>.
\<close>

theorem verifyAdminKey_unconfigured:
  "verifyAdminKey None req =
     Inl \<lparr>status = 403, body = Error_json Acesso_admin_nao_autorizado None None\<rparr>"
  by (cases "x_admin_key req") (simp_all add: verifyAdminKey_def truthy_def)

theorem verifyAdminKey_unconfigured_witness:
  "verifyAdminKey None (no_request\<lparr>x_admin_key := Some ''undefined''\<rparr>) =
     Inl \<lparr>status = 403, body = Error_json Acesso_admin_nao_autorizado None None\<rparr>"
  by (rule verifyAdminKey_unconfigured)

text \<open>
  C4 (as the code has it). On a token-gated route the token check answers 401 exactly when
  neither the Authorization header nor the token query parameter holds a token. It answers
  403 exactly when the token it reads (the header, or the query parameter when the header
  holds none) is a string whose verification fails (bad signature or expired), and lets the
  request through exactly when that string verifies. 401 and 403 are different codes, so
  the two failures are told apart. The check sends neither, and throws, exactly when the
  header holds no token and the query parameter is a truthy value that is not a string.
\<close>

theorem verifyToken_statuses:
  "(sent_status (verifyToken jwt_verify req) = Some 401)
     = (\<not> truthy (authorization req) \<and> \<not> truthy_js (query_token req))
   \<and> (sent_status (verifyToken jwt_verify req) = Some 403)
     = ((truthy (authorization req) \<or> truthy_js (query_token req))
        \<and> (\<exists>token err. token_of req = Some (JString token)
              \<and> jwt_verify (strip_bearer token) = Inl err))
   \<and> (\<exists>user. verifyToken jwt_verify req = Next user)
     = ((truthy (authorization req) \<or> truthy_js (query_token req))
        \<and> (\<exists>token user. token_of req = Some (JString token)
              \<and> jwt_verify (strip_bearer token) = Inr user))
   \<and> (verifyToken jwt_verify req = Throw_TypeError)
     = (\<not> truthy (authorization req)
        \<and> (\<exists>v. query_token req = Some v \<and> truthy_value v \<and> (\<forall>token. v \<noteq> JString token)))"
proof -
  have token: "truthy_js (token_of req) = (truthy (authorization req) \<or> truthy_js (query_token req))"
    by (cases "authorization req")
      (auto simp: token_of_def truthy_def truthy_js_def truthy_value_def)
  show ?thesis
  proof (cases "truthy (authorization req)")
    case True
    then obtain header where "authorization req = Some header" "header \<noteq> []"
      by (auto simp: truthy_def split: option.splits)
    then show ?thesis
      by (auto simp: verifyToken_def sent_status_def token_of_def truthy_def truthy_js_def
          truthy_value_def split: sum.splits)
  next
    case False
    then have read: "token_of req = (if truthy_js (query_token req) then query_token req
        else map_option JString (authorization req))"
      by (simp add: token_of_def)
    show ?thesis
    proof (cases "truthy_js (query_token req)")
      case True
      then obtain v where v: "query_token req = Some v" "truthy_value v"
        by (auto simp: truthy_js_def split: option.splits)
      then show ?thesis using False True read
        by (cases v)
          (auto simp: verifyToken_def sent_status_def truthy_js_def truthy_value_def
            split: sum.splits)
    next
      case no_query: False
      then have "\<not> truthy_js (token_of req)" using False token by simp
      then show ?thesis using False no_query
        by (auto simp: verifyToken_def sent_status_def truthy_js_def split: option.splits)
    qed
  qed
qed

theorem verifyToken_statuses_witness:
  "sent_status (verifyToken sample_jwt_verify
      (no_request\<lparr>authorization := Some ''Bearer tok-old''\<rparr>)) = Some 403
   \<and> (\<exists>user. verifyToken sample_jwt_verify
      (no_request\<lparr>query_token := Some (JString ''tok-ana'')\<rparr>) = Next user)
   \<and> sent_status (verifyToken sample_jwt_verify no_request) = Some 401"
  using verifyToken_statuses [of sample_jwt_verify "no_request\<lparr>authorization := Some ''Bearer tok-old''\<rparr>"]
    verifyToken_statuses [of sample_jwt_verify "no_request\<lparr>query_token := Some (JString ''tok-ana'')\<rparr>"]
    verifyToken_statuses [of sample_jwt_verify no_request]
  by (simp add: no_request_def truthy_def truthy_js_def truthy_value_def token_of_def
        strip_bearer_def sample_jwt_verify_def)

text \<open>
  C4 as the spec states it fails: a request that carries the token parameter twice presents
  a token and none that verifies, yet the check sends neither 401 nor 403; it throws, and
  the route is answered 500 by Express.
\<close>

theorem verifyToken_repeated_token_counterexample:
  "truthy_js (query_token repeated_token_request)
   \<and> verifyToken sample_jwt_verify repeated_token_request = Throw_TypeError
   \<and> sent_status (verifyToken sample_jwt_verify repeated_token_request) = None
   \<and> status (catalog_all_route sample_jwt_verify sample_db repeated_token_request) = 500"
  by (simp add: repeated_token_request_def no_request_def verifyToken_def token_of_def
        truthy_def truthy_js_def truthy_value_def sent_status_def catalog_all_route_def
        express_error_def)

section \<open>Properties of the Catalog Service\<close>

text \<open>Evaluating the handlers on the sample environment.\<close>

lemmas value_simps = truthy_def truthy_js_def truthy_value_def prepareValue_def template_def
  compare_promise_def hash_promise_def

lemmas token_simps = verifyToken_def token_of_def strip_bearer_def sample_jwt_verify_def

lemmas sample_simps = no_request_def sample_db_def sample_compare_def sample_hash_def
  sample_sign_def reset_request_def login_request_def json_error_def
  pool_query_def client_query_def select_usuarios_by_usuario_def update_senha_hash_by_usuario_def
  verifyAdminKey_def reset_password_route_def reset_password_handler_def login_handler_def
  welcome_name_def

text \<open>
  C3 (as the code has it). Take two Login requests with non-empty fields: for the first the
  lookup by login returns no user, for the second it returns a user and the password is a
  string that the stored hash does not verify. Both are answered 401, and with the same
  body, so the caller cannot tell which check failed.
\<close>

theorem login_failures_same_response:
  assumes "body_usuario req1 = Some login1" "truthy_value login1"
    and "body_senha req1 = Some senha1" "truthy_value senha1"
    and "body_usuario req2 = Some login2" "truthy_value login2"
    and "body_senha req2 = Some (JString senha2)" "senha2 \<noteq> []"
    and "pool_query db (\<lambda>d. select_usuarios_by_usuario d (prepareValue pg_text login1)) = Inr []"
    and "pool_query db (\<lambda>d. select_usuarios_by_usuario d (prepareValue pg_text login2))
           = Inr (user # others)"
    and "\<not> bcrypt_compare senha2 (senha_hash user)"
  shows "status (login_handler pg_text bcrypt_compare jwt_sign db req1) = 401
       \<and> status (login_handler pg_text bcrypt_compare jwt_sign db req2) = 401
       \<and> login_handler pg_text bcrypt_compare jwt_sign db req1
           = login_handler pg_text bcrypt_compare jwt_sign db req2"
  using assms
  by (simp add: login_handler_def truthy_js_def truthy_value_def compare_promise_def
      json_error_def)

theorem login_failures_same_response_witness:
  "status (login_handler sample_text sample_compare sample_sign sample_db
      (login_request ''bob'' (JNumber 123))) = 401
   \<and> status (login_handler sample_text sample_compare sample_sign sample_db
      (login_request ''ana'' (JString ''guess''))) = 401
   \<and> login_handler sample_text sample_compare sample_sign sample_db
      (login_request ''bob'' (JNumber 123))
     = login_handler sample_text sample_compare sample_sign sample_db
      (login_request ''ana'' (JString ''guess''))"
  by (rule login_failures_same_response
        [where ?login1.0 = "JString ''bob''" and ?senha1.0 = "JNumber 123"
           and ?login2.0 = "JString ''ana''" and ?senha2.0 = "''guess''" and others = "[]"
           and user = "\<lparr>usuario_id = 1, usuario = ''ana'', senha_hash = ''$pw1'',
                   nome_completo = Some ''Ana Lima''\<rparr>"])
     (simp_all add: sample_simps value_simps)

text \<open>
  C3 as the spec states it fails: with a password that is not a string (the number 123),
  both fields being non-empty, the login that matches no user is answered 401 and the login
  that matches one is answered 500, because \<open>bcrypt.compare\<close> rejects and the handler's
  \<open>catch\<close> answers. The two statuses differ.
\<close>

theorem login_number_password_counterexample:
  "truthy_js (body_usuario (login_request ''bob'' (JNumber 123)))
   \<and> truthy_js (body_senha (login_request ''bob'' (JNumber 123)))
   \<and> truthy_js (body_usuario (login_request ''ana'' (JNumber 123)))
   \<and> pool_query sample_db (\<lambda>d. select_usuarios_by_usuario d ''bob'') = Inr []
   \<and> pool_query sample_db (\<lambda>d. select_usuarios_by_usuario d ''ana'')
       = Inr [\<lparr>usuario_id = 1, usuario = ''ana'', senha_hash = ''$pw1'',
                 nome_completo = Some ''Ana Lima''\<rparr>]
   \<and> compare_promise sample_compare (JNumber 123) ''$pw1'' \<noteq> Some True
   \<and> status (login_handler sample_text sample_compare sample_sign sample_db
        (login_request ''bob'' (JNumber 123))) = 401
   \<and> status (login_handler sample_text sample_compare sample_sign sample_db
        (login_request ''ana'' (JNumber 123))) = 500"
  by (simp add: sample_simps value_simps)

text \<open>
  C8. For an authenticated ListAllPartCodes request whose query the store answers, the
  response is 200 with a flat list of part codes that is in ascending lexicographic order
  and holds the code of every row of the catalogue, one entry per row.
\<close>

theorem catalog_all_sorted:
  assumes "verifyToken jwt_verify req = Next user"
    and "pool_query db select_cod_peca_ordered = Inr codes"
  shows "catalog_all_route jwt_verify db req = \<lparr>status = 200, body = Codes_json codes\<rparr>
       \<and> sorted codes
       \<and> set codes = cod_peca ` set (catalogo_pecas db)
       \<and> length codes = length (catalogo_pecas db)"
proof -
  from assms(2) have codes: "codes = map cod_peca (sort_key cod_peca (catalogo_pecas db))"
    by (auto simp: pool_query_def client_query_def select_cod_peca_ordered_def
        split: option.splits)
  have "catalog_all_route jwt_verify db req = \<lparr>status = 200, body = Codes_json codes\<rparr>"
    using assms by (simp add: catalog_all_route_def catalog_all_handler_def)
  moreover have "sorted codes" unfolding codes by (rule sorted_sort_key)
  moreover have "set codes = cod_peca ` set (catalogo_pecas db)" unfolding codes by simp
  moreover have "length codes = length (catalogo_pecas db)" unfolding codes by simp
  ultimately show ?thesis by simp
qed

theorem catalog_all_sorted_witness:
  "catalog_all_route sample_jwt_verify sample_db (no_request\<lparr>authorization := Some ''tok-ana''\<rparr>)
     = \<lparr>status = 200, body = Codes_json [''PN-100'', ''PN-200'']\<rparr>
   \<and> sorted [''PN-100'', ''PN-200'']
   \<and> set [''PN-100'', ''PN-200''] = cod_peca ` set (catalogo_pecas sample_db)
   \<and> length [''PN-100'', ''PN-200''] = length (catalogo_pecas sample_db)"
  by (rule catalog_all_sorted [where user = "\<lparr>tok_id = 1, tok_usuario = ''ana''\<rparr>"])
     (simp_all add: token_simps value_simps no_request_def pool_query_def client_query_def
        select_cod_peca_ordered_def sample_db_def)

text \<open>
  C5 (as the code has it). For an authenticated ChangePassword request whose old password
  does not verify against the caller's stored hash, nothing is written to the store. When
  the old password is a string, the answer is 401 when the old and the new password are
  both non-empty; the handler checks the fields first, so it is 400 when one of them is
  empty or missing.
\<close>

theorem change_password_wrong_old_password:
  assumes "verifyToken jwt_verify req = Next user"
    and "body_senhaAntiga req = Some senhaAntiga"
    and "pool_query db (\<lambda>d. select_senha_hash_by_id d (tok_id user)) = Inr (hash # others)"
    and "compare_promise bcrypt_compare senhaAntiga hash \<noteq> Some True"
  shows "snd (change_password_route jwt_verify bcrypt_compare bcrypt_hash db req) = db
       \<and> (\<forall>old. senhaAntiga = JString old \<longrightarrow>
            status (fst (change_password_route jwt_verify bcrypt_compare bcrypt_hash db req))
              = (if old \<noteq> [] \<and> truthy_js (body_novaSenha req) then 401 else 400))"
  using assms
  by (cases senhaAntiga)
    (auto simp: change_password_route_def change_password_handler_def truthy_js_def
      truthy_value_def compare_promise_def json_error_def split: option.splits)

theorem change_password_wrong_old_password_witness:
  "snd (change_password_route sample_jwt_verify sample_compare sample_hash sample_db
         (wrong_old_request\<lparr>body_novaSenha := Some (JString ''pw2'')\<rparr>)) = sample_db
   \<and> status (fst (change_password_route sample_jwt_verify sample_compare sample_hash sample_db
         (wrong_old_request\<lparr>body_novaSenha := Some (JString ''pw2'')\<rparr>))) = 401
   \<and> snd (change_password_route sample_jwt_verify sample_compare sample_hash sample_db
         (wrong_old_request\<lparr>body_senhaAntiga := Some (JNumber 123),
            body_novaSenha := Some (JString ''pw2'')\<rparr>)) = sample_db"
  using change_password_wrong_old_password
     [of sample_jwt_verify "wrong_old_request\<lparr>body_novaSenha := Some (JString ''pw2'')\<rparr>"
         "\<lparr>tok_id = 1, tok_usuario = ''ana''\<rparr>" "JString ''guess''" sample_db "''$pw1''" "[]"
         sample_compare sample_hash]
    change_password_wrong_old_password
     [of sample_jwt_verify "wrong_old_request\<lparr>body_senhaAntiga := Some (JNumber 123),
            body_novaSenha := Some (JString ''pw2'')\<rparr>"
         "\<lparr>tok_id = 1, tok_usuario = ''ana''\<rparr>" "JNumber 123" sample_db "''$pw1''" "[]"
         sample_compare sample_hash]
  by (simp add: value_simps token_simps wrong_old_request_def no_request_def pool_query_def
        client_query_def select_senha_hash_by_id_def sample_db_def sample_compare_def)

text \<open>
  C5 as the spec states it fails: an authenticated request with a wrong old password and no new
  password is answered 400, not 401.
\<close>

theorem change_password_missing_new_counterexample:
  "verifyToken sample_jwt_verify wrong_old_request = Next \<lparr>tok_id = 1, tok_usuario = ''ana''\<rparr>
   \<and> body_senhaAntiga wrong_old_request = Some (JString ''guess'')
   \<and> pool_query sample_db (\<lambda>d. select_senha_hash_by_id d 1) = Inr [''$pw1'']
   \<and> \<not> sample_compare ''guess'' ''$pw1''
   \<and> status (fst (change_password_route sample_jwt_verify sample_compare sample_hash sample_db
        wrong_old_request)) = 400"
  by (simp add: change_password_route_def change_password_handler_def json_error_def
        value_simps token_simps wrong_old_request_def no_request_def pool_query_def
        client_query_def select_senha_hash_by_id_def sample_db_def sample_compare_def)

text \<open>Facts about the two UPDATE statements and about a query that the store answers.\<close>

lemma update_no_match:
  "filter P rows = [] \<Longrightarrow> map (\<lambda>row. if P row then f row else row) rows = rows"
  by (induction rows) (auto split: if_splits)

lemma filter_update_match:
  "filter (\<lambda>row. usuario row = login)
     (map (\<lambda>row. if usuario row = login then row\<lparr>senha_hash := h\<rparr> else row) rows)
   = map (\<lambda>row. row\<lparr>senha_hash := h\<rparr>) (filter (\<lambda>row. usuario row = login) rows)"
  by (induction rows) auto

lemma pool_query_Inr:
  "pool_query db statement = Inr result
     \<longleftrightarrow> connect_error db = None \<and> query_error db = None \<and> result = statement db"
  by (auto simp: pool_query_def client_query_def split: option.splits)

text \<open>
  C6 (as the code has it). Take an AdminResetPassword request with a valid admin key, a
  non-empty login and a new password that is a non-empty string, on a store that answers.
  If the login matches no user the answer is 404 and the store is unchanged. If it matches,
  the answer is 200, every row of that login now holds the hash of the new password and no
  other row changes, and afterwards Login with that login answers 401 to every password
  that is a non-empty string and does not verify against the new hash: the old password
  stops authenticating when bcrypt does not verify it against the new hash.
\<close>

theorem reset_password_effect:
  assumes key: "verifyAdminKey ADMIN_API_KEY req = Inr ()"
    and login: "body_usuario req = Some login" "truthy_value login"
    and nova: "body_novaSenha req = Some (JString novaSenha)" "novaSenha \<noteq> []"
    and rows: "pool_query db (\<lambda>d. select_usuarios_by_usuario d (prepareValue pg_text login))
                 = Inr rows"
  shows "(rows = [] \<longrightarrow>
            status (fst (reset_password_route ADMIN_API_KEY pg_text bcrypt_hash db req)) = 404
          \<and> snd (reset_password_route ADMIN_API_KEY pg_text bcrypt_hash db req) = db)
       \<and> (rows \<noteq> [] \<longrightarrow>
            status (fst (reset_password_route ADMIN_API_KEY pg_text bcrypt_hash db req)) = 200
          \<and> usuarios (snd (reset_password_route ADMIN_API_KEY pg_text bcrypt_hash db req))
              = map (\<lambda>row. if usuario row = prepareValue pg_text login
                            then row\<lparr>senha_hash := bcrypt_hash novaSenha 10\<rparr> else row)
                  (usuarios db)
          \<and> (\<forall>attempt senha. body_usuario attempt = Some login
                 \<and> body_senha attempt = Some (JString senha)
                 \<and> senha \<noteq> [] \<and> \<not> bcrypt_compare senha (bcrypt_hash novaSenha 10)
               \<longrightarrow> status (login_handler pg_text bcrypt_compare jwt_sign
                             (snd (reset_password_route ADMIN_API_KEY pg_text bcrypt_hash db req))
                             attempt)
                   = 401))"
proof -
  let ?h = "bcrypt_hash novaSenha 10"
  let ?name = "prepareValue pg_text login"
  let ?db' = "db\<lparr>usuarios := map (\<lambda>row. if usuario row = ?name
                            then row\<lparr>senha_hash := ?h\<rparr> else row) (usuarios db)\<rparr>"
  from rows have up: "connect_error db = None" "query_error db = None"
    and sel: "rows = filter (\<lambda>row. usuario row = ?name) (usuarios db)"
    by (simp_all add: pool_query_Inr select_usuarios_by_usuario_def)
  have route: "reset_password_route ADMIN_API_KEY pg_text bcrypt_hash db req
      = (if rows = [] then (json_error 404 (Usuario_alvo_nao_encontrado login), ?db')
         else (\<lparr>status = 200, body = Message_json (Senha_resetada login)\<rparr>, ?db'))"
    using key login nova up sel
    by (simp add: reset_password_route_def reset_password_handler_def truthy_js_def
        truthy_value_def hash_promise_def pool_query_def client_query_def
        update_senha_hash_by_usuario_def)
  have unknown: "?db' = db" if "rows = []"
    using that sel update_no_match [of "\<lambda>row. usuario row = ?name" "usuarios db"] by simp
  have known: "status (login_handler pg_text bcrypt_compare jwt_sign ?db' attempt) = 401"
    if "rows \<noteq> []" and "body_usuario attempt = Some login"
      and "body_senha attempt = Some (JString senha)"
      and "senha \<noteq> []" "\<not> bcrypt_compare senha ?h" for attempt senha
  proof -
    from that(1) obtain row others where "rows = row # others" by (cases rows) auto
    then have "pool_query ?db' (\<lambda>d. select_usuarios_by_usuario d ?name)
        = Inr (row\<lparr>senha_hash := ?h\<rparr> # map (\<lambda>row. row\<lparr>senha_hash := ?h\<rparr>) others)"
      using up sel by (simp add: pool_query_Inr select_usuarios_by_usuario_def filter_update_match)
    then show ?thesis using that login
      by (simp add: login_handler_def truthy_js_def truthy_value_def compare_promise_def
          json_error_def)
  qed
  show ?thesis using route unknown known by (simp add: json_error_def)
qed

theorem reset_password_effect_witness:
  "status (fst (reset_password_route (Some ''k3y'') sample_text sample_hash sample_db
                    (reset_request ''bob'' (JString ''pw2'')))) = 404
   \<and> snd (reset_password_route (Some ''k3y'') sample_text sample_hash sample_db
                    (reset_request ''bob'' (JString ''pw2''))) = sample_db
   \<and> status (fst (reset_password_route (Some ''k3y'') sample_text sample_hash sample_db
                    (reset_request ''ana'' (JString ''pw2'')))) = 200
   \<and> status (login_handler sample_text sample_compare sample_sign
        (snd (reset_password_route (Some ''k3y'') sample_text sample_hash sample_db
                (reset_request ''ana'' (JString ''pw2''))))
        (login_request ''ana'' (JString ''pw1''))) = 401"
proof -
  have bob: "pool_query sample_db
      (\<lambda>d. select_usuarios_by_usuario d (prepareValue sample_text (JString ''bob''))) = Inr []"
    by (simp add: sample_simps value_simps)
  have ana: "pool_query sample_db
      (\<lambda>d. select_usuarios_by_usuario d (prepareValue sample_text (JString ''ana'')))
      = Inr [\<lparr>usuario_id = 1, usuario = ''ana'', senha_hash = ''$pw1'',
                   nome_completo = Some ''Ana Lima''\<rparr>]"
    by (simp add: sample_simps value_simps)
  have key: "verifyAdminKey (Some ''k3y'') (reset_request login nova) = Inr ()" for login nova
    by (simp add: sample_simps value_simps)
  have fields: "body_usuario (reset_request login nova) = Some (JString login)"
    "body_novaSenha (reset_request login nova) = Some nova" for login nova
    by (simp_all add: sample_simps)
  have truthy: "truthy_value (JString ''bob'')" "truthy_value (JString ''ana'')"
    by (simp_all add: value_simps)
  note unknown = reset_password_effect [OF key fields(1) truthy(1) fields(2) _ bob,
      of "''pw2''" sample_hash sample_compare sample_sign]
  note known = reset_password_effect [OF key fields(1) truthy(2) fields(2) _ ana,
      of "''pw2''" sample_hash sample_compare sample_sign]
  have attempt: "body_usuario (login_request ''ana'' (JString ''pw1'')) = Some (JString ''ana'')"
    "body_senha (login_request ''ana'' (JString ''pw1'')) = Some (JString ''pw1'')"
    "\<not> sample_compare ''pw1'' (sample_hash ''pw2'' 10)"
    by (simp_all add: sample_simps)
  from unknown known attempt show ?thesis by auto
qed

text \<open>
  C6 as the spec states it fails twice. When the new password is the old one, the reset is
  answered 200 and the old password, which authenticated before, authenticates after it as
  well. And when the new password is not a string (the number 123), both fields being
  non-empty, a login that matches no user is answered 500 and not 404, because the new
  password is hashed first and \<open>bcrypt.hash\<close> rejects.
\<close>

theorem reset_password_same_password_counterexample:
  "status (login_handler sample_text sample_compare sample_sign sample_db
        (login_request ''ana'' (JString ''pw1''))) = 200
   \<and> verifyAdminKey (Some ''k3y'') (reset_request ''ana'' (JString ''pw1'')) = Inr ()
   \<and> status (fst (reset_password_route (Some ''k3y'') sample_text sample_hash sample_db
                    (reset_request ''ana'' (JString ''pw1'')))) = 200
   \<and> status (login_handler sample_text sample_compare sample_sign
        (snd (reset_password_route (Some ''k3y'') sample_text sample_hash sample_db
                (reset_request ''ana'' (JString ''pw1''))))
        (login_request ''ana'' (JString ''pw1''))) = 200
   \<and> truthy_js (body_novaSenha (reset_request ''bob'' (JNumber 123)))
   \<and> pool_query sample_db (\<lambda>d. select_usuarios_by_usuario d ''bob'') = Inr []
   \<and> status (fst (reset_password_route (Some ''k3y'') sample_text sample_hash sample_db
                    (reset_request ''bob'' (JNumber 123)))) = 500"
  by (simp add: sample_simps value_simps)

text \<open>
  C7 (as the code has it). For an authenticated SearchPhotos request on an indexed part code
  whose directory listing succeeds, the answer is 200 with the part code and a photo list
  whose filenames are exactly the listed names with a media type that starts with
  \<open>image/\<close>, in listing order, each with the url \<open>/api/photo/{cod_peca}/{filename}\<close>.
\<close>

theorem search_lists_images:
  assumes "verifyToken jwt_verify req = Next user"
    and "query_cod_peca req = Some cod" "truthy_value cod"
    and "pool_query db (\<lambda>d. select_caminho_nas d (prepareValue pg_text cod))
           = Inr (caminho # others)"
    and "readdir fs caminho = Inr files"
  shows "\<exists>fotos. search_route jwt_verify pg_text js_text mime_lookup db fs req
                  = \<lparr>status = 200, body = Search_json cod fotos\<rparr>
           \<and> map filename fotos
               = filter (\<lambda>file. \<exists>mimeType. mime_lookup file = Some mimeType
                                   \<and> prefix ''image/'' mimeType) files
           \<and> map url fotos
               = map (\<lambda>foto. ''/api/photo/'' @ template js_text cod @ ''/'' @ filename foto) fotos"
proof -
  have "is_image mime_lookup = (\<lambda>file. \<exists>mimeType. mime_lookup file = Some mimeType
                                   \<and> prefix ''image/'' mimeType)"
    by (auto simp: is_image_def fun_eq_iff split: option.splits)
  then show ?thesis using assms
    by (simp add: search_route_def search_handler_def imageFiles_def comp_def)
qed

theorem search_lists_images_witness:
  "\<exists>fotos. search_route sample_jwt_verify sample_text sample_text sample_mime sample_db sample_fs
              search_PN100
              = \<lparr>status = 200, body = Search_json (JString ''PN-100'') fotos\<rparr>
         \<and> map filename fotos = [''a.jpg'', ''b.png'']
         \<and> map url fotos = map (\<lambda>foto. ''/api/photo/PN-100/'' @ filename foto) fotos"
  using search_lists_images [of sample_jwt_verify search_PN100 "\<lparr>tok_id = 1, tok_usuario = ''ana''\<rparr>"
      "JString ''PN-100''" sample_db sample_text "''/nas/PN-100''" "[]" sample_fs
      "[''a.jpg'', ''b.png'', ''notes.txt'']" sample_text sample_mime]
  by (simp add: search_PN100_def token_simps value_simps no_request_def pool_query_def
        client_query_def select_caminho_nas_def sample_db_def sample_fs_def sample_mime_def)

text \<open>
  C7 as the spec states it fails on the url: for the directory of the spec's example the photos
  come back under \<open>/api/photo/...\<close>, not under \<open>/photo/...\<close>.
\<close>

theorem search_url_counterexample:
  "body (search_route sample_jwt_verify sample_text sample_text sample_mime sample_db sample_fs
           search_PN100)
     = Search_json (JString ''PN-100'')
          [\<lparr>filename = ''a.jpg'', url = ''/api/photo/PN-100/a.jpg''\<rparr>,
           \<lparr>filename = ''b.png'', url = ''/api/photo/PN-100/b.png''\<rparr>]
  \<and> body (search_route sample_jwt_verify sample_text sample_text sample_mime sample_db sample_fs
           search_PN100)
     \<noteq> Search_json (JString ''PN-100'')
          [\<lparr>filename = ''a.jpg'', url = ''/photo/PN-100/a.jpg''\<rparr>,
           \<lparr>filename = ''b.png'', url = ''/photo/PN-100/b.png''\<rparr>]"
  by (simp add: search_route_def search_handler_def imageFiles_def is_image_def sample_mime_def
        search_PN100_def token_simps value_simps no_request_def pool_query_def client_query_def
        select_caminho_nas_def sample_db_def sample_fs_def)

section \<open>Properties of the Indexer\<close>

text \<open>Evaluating paths and runs on the sample environment.\<close>

lemmas path_simps = path_join_def path_normalize_def resolved_def normalizeString_def
  normalize_segment_def isAbsolute_def trailingSeparator_def inside_dir_def

lemmas indexer_simps = startIndexing_def process_item_def client_query_def upsert_catalogo_def
  sample_fs_def sample_db_def empty_catalogue_def code_paths_def

text \<open>
  The upsert: it sets the path and the timestamp of its code and of no other, and keeps the
  codes distinct. A run's upserts, and a run as a whole, follow from it.
\<close>

lemma index_rows_simps [simp]:
  "index_rows nas_root now rows [] = rows"
  "index_rows nas_root now rows (d # ds)
     = index_rows nas_root now (upsert_peca d (path_join [nas_root, d]) now rows) ds"
  by (simp_all add: index_rows_def)

lemma code_paths_upsert_same:
  "map_of (code_paths rows) cod = Some caminho \<Longrightarrow> code_paths (upsert_peca cod caminho now rows) = code_paths rows"
  by (induction rows) (auto simp: code_paths_def split: if_splits)

lemma map_of_code_paths_upsert:
  "map_of (code_paths (upsert_peca cod caminho now rows)) = (map_of (code_paths rows))(cod \<mapsto> caminho)"
  by (induction rows) (auto simp: code_paths_def fun_eq_iff)

lemma keys_upsert:
  "set (map cod_peca (upsert_peca cod caminho now rows)) = insert cod (set (map cod_peca rows))"
  by (induction rows) auto

lemma distinct_upsert:
  "distinct (map cod_peca rows) \<Longrightarrow> distinct (map cod_peca (upsert_peca cod caminho now rows))"
  by (induction rows) (auto simp: keys_upsert simp del: set_map)

lemma stamp_upsert:
  "map_of (code_stamps (upsert_peca cod caminho now rows)) = (map_of (code_stamps rows))(cod \<mapsto> now)"
  by (induction rows) (auto simp: fun_eq_iff code_stamps_def)

lemma map_of_code_paths_index_rows:
  "map_of (code_paths (index_rows nas_root now rows dirs)) cod
     = (if cod \<in> set dirs then Some (path_join [nas_root, cod]) else map_of (code_paths rows) cod)"
  by (induction dirs arbitrary: rows) (auto simp: map_of_code_paths_upsert)

lemma stamps_index_rows:
  "map_of (code_stamps (index_rows nas_root now rows dirs)) cod
     = (if cod \<in> set dirs then Some now else map_of (code_stamps rows) cod)"
  by (induction dirs arbitrary: rows) (auto simp: stamp_upsert)

lemma keys_index_rows:
  "set (map cod_peca (index_rows nas_root now rows dirs)) = set (map cod_peca rows) \<union> set dirs"
  by (induction dirs arbitrary: rows) (auto simp: keys_upsert simp del: set_map)

lemma distinct_index_rows:
  "distinct (map cod_peca rows) \<Longrightarrow> distinct (map cod_peca (index_rows nas_root now rows dirs))"
  by (induction dirs arbitrary: rows) (auto simp: distinct_upsert)

lemma code_paths_index_rows_again:
  "\<forall>d\<in>set dirs. map_of (code_paths rows) d = Some (path_join [nas_root, d])
     \<Longrightarrow> code_paths (index_rows nas_root now rows dirs) = code_paths rows"
proof (induction dirs arbitrary: rows)
  case Nil
  then show ?case by simp
next
  case (Cons d ds)
  have same: "code_paths (upsert_peca d (path_join [nas_root, d]) now rows) = code_paths rows"
    using Cons.prems by (simp add: code_paths_upsert_same)
  have "code_paths (index_rows nas_root now (upsert_peca d (path_join [nas_root, d]) now rows) ds)
      = code_paths (upsert_peca d (path_join [nas_root, d]) now rows)"
    using Cons.prems by (intro Cons.IH) (simp add: same)
  then show ?case by (simp add: same)
qed

lemma index_rows_idempotent:
  "code_paths (index_rows nas_root now2 (index_rows nas_root now1 rows dirs) dirs)
     = code_paths (index_rows nas_root now1 rows dirs)"
  by (rule code_paths_index_rows_again) (simp add: map_of_code_paths_index_rows)

lemma process_items_ok:
  "query_error db = None \<Longrightarrow>
   foldl (process_item fs nas_root now) \<lparr>store = db, indexedCount = i, errorCount = e\<rparr> items
     = \<lparr>store = db\<lparr>catalogo_pecas :=
                    index_rows nas_root now (catalogo_pecas db) (filter (is_directory fs nas_root) items)\<rparr>,
        indexedCount = i + length (filter (is_directory fs nas_root) items),
        errorCount = e + length (filter (stat_fails fs nas_root) items)\<rparr>"
proof (induction items arbitrary: db i e)
  case Nil
  then show ?case by simp
next
  case (Cons item items)
  show ?case
  proof (cases "stat_isDirectory fs (path_join [nas_root, item])")
    case (Inl err)
    then show ?thesis using Cons
      by (simp add: process_item_def is_directory_def stat_fails_def)
  next
    case (Inr isDirectory)
    then show ?thesis using Cons.prems
        Cons.IH [of "upsert_catalogo db item (path_join [nas_root, item]) now" "i + 1" e]
        Cons.IH [of db i e]
      by (cases isDirectory)
        (simp_all add: process_item_def is_directory_def stat_fails_def client_query_def
          upsert_catalogo_def)
  qed
qed

lemma process_items_query_error:
  "query_error db = Some err \<Longrightarrow>
   foldl (process_item fs nas_root now) \<lparr>store = db, indexedCount = i, errorCount = e\<rparr> items
     = \<lparr>store = db, indexedCount = i,
        errorCount = e + length (filter (\<lambda>item. stat_fails fs nas_root item \<or> is_directory fs nas_root item)
                                   items)\<rparr>"
proof (induction items arbitrary: e)
  case Nil
  then show ?case by simp
next
  case (Cons item items)
  show ?case
  proof (cases "stat_isDirectory fs (path_join [nas_root, item])")
    case (Inl err)
    then show ?thesis using Cons
      by (simp add: process_item_def is_directory_def stat_fails_def)
  next
    case (Inr isDirectory)
    then show ?thesis using Cons
      by (cases isDirectory)
        (simp_all add: process_item_def is_directory_def stat_fails_def client_query_def)
  qed
qed

lemma startIndexing_ok:
  assumes "connect_error db = None" "query_error db = None" "readdir fs nas_root = Inr items"
  shows "startIndexing fs nas_root now db
     = \<lparr>store = db\<lparr>catalogo_pecas :=
                    index_rows nas_root now (catalogo_pecas db) (filter (is_directory fs nas_root) items)\<rparr>,
        indexedCount = length (filter (is_directory fs nas_root) items),
        errorCount = length (filter (stat_fails fs nas_root) items)\<rparr>"
  using assms process_items_ok [of db fs nas_root now 0 0 items] by (simp add: startIndexing_def)

lemma startIndexing_query_error:
  assumes "connect_error db = None" "query_error db = Some err" "readdir fs nas_root = Inr items"
  shows "startIndexing fs nas_root now db
     = \<lparr>store = db, indexedCount = 0,
        errorCount = length (filter (\<lambda>item. stat_fails fs nas_root item \<or> is_directory fs nas_root item)
                               items)\<rparr>"
  using assms process_items_query_error [of db err fs nas_root now 0 0 items]
  by (simp add: startIndexing_def)


lemma filter_two_of_three:
  "set items = {a, b, c} \<Longrightarrow> P a \<Longrightarrow> P b \<Longrightarrow> \<not> P c \<Longrightarrow> set (filter P items) = {a, b}"
  by auto

lemma filter_none_of_three:
  "set items = {a, b, c} \<Longrightarrow> \<not> P a \<Longrightarrow> \<not> P b \<Longrightarrow> \<not> P c \<Longrightarrow> filter P items = []"
  by (auto simp: filter_empty_conv)

lemma code_paths_Nil: "code_paths [] = []"
  by (simp add: code_paths_def)

lemma code_paths_two_directories:
  assumes "set dirs = {a, b}"
  shows "map_of (code_paths (index_rows nas_root now [] dirs))
     = [a \<mapsto> path_join [nas_root, a], b \<mapsto> path_join [nas_root, b]]"
proof (rule ext)
  fix x
  have "x \<in> set dirs \<longleftrightarrow> x = a \<or> x = b" by (simp only: assms insert_iff empty_iff simp_thms)
  then show "map_of (code_paths (index_rows nas_root now [] dirs)) x
     = [a \<mapsto> path_join [nas_root, a], b \<mapsto> path_join [nas_root, b]] x"
    by (simp add: map_of_code_paths_index_rows code_paths_Nil)
qed

text \<open>
  C2 (as the code has it). The Indexer scans a root whose listing is exactly \<open>PN-100\<close>,
  \<open>PN-200\<close> and \<open>readme.txt\<close>, in any order, the first two directories and the third a
  regular file, with an empty catalogue and every file system and store operation
  succeeding. It creates exactly two CatalogEntries, \<open>PN-100\<close> and \<open>PN-200\<close> with their
  paths under the root, and reports indexed-count 2 and skipped-count 0: an entry that is not
  a directory is passed over without being counted, the counter counts failures only.
\<close>

theorem indexer_two_directories_one_file:
  assumes up: "connect_error db = None" "query_error db = None"
    and empty: "catalogo_pecas db = []"
    and listing: "readdir fs nas_root = Inr items" "distinct items"
      "set items = {''PN-100'', ''PN-200'', ''readme.txt''}"
    and stats: "stat_isDirectory fs (path_join [nas_root, ''PN-100'']) = Inr True"
      "stat_isDirectory fs (path_join [nas_root, ''PN-200'']) = Inr True"
      "stat_isDirectory fs (path_join [nas_root, ''readme.txt'']) = Inr False"
  shows "indexedCount (startIndexing fs nas_root now db) = 2
       \<and> errorCount (startIndexing fs nas_root now db) = 0
       \<and> length (catalogo_pecas (store (startIndexing fs nas_root now db))) = 2
       \<and> map_of (code_paths (catalogo_pecas (store (startIndexing fs nas_root now db))))
           = [''PN-100'' \<mapsto> path_join [nas_root, ''PN-100''],
              ''PN-200'' \<mapsto> path_join [nas_root, ''PN-200'']]"
proof -
  let ?dirs = "filter (is_directory fs nas_root) items"
  let ?rows = "index_rows nas_root now [] ?dirs"
  have run: "startIndexing fs nas_root now db
     = \<lparr>store = db\<lparr>catalogo_pecas := ?rows\<rparr>, indexedCount = length ?dirs,
        errorCount = length (filter (stat_fails fs nas_root) items)\<rparr>"
    using up listing(1) empty by (simp add: startIndexing_ok)
  have dirs: "set ?dirs = {''PN-100'', ''PN-200''}"
    by (rule filter_two_of_three [OF listing(3)]) (simp_all add: is_directory_def stats)
  have two: "card {''PN-100'', ''PN-200''} = 2" by simp
  have "distinct ?dirs" using listing(2) by simp
  then have "length ?dirs = card (set ?dirs)" by (simp only: distinct_card)
  then have indexed: "length ?dirs = 2" by (simp only: dirs two)
  have failed: "filter (stat_fails fs nas_root) items = []"
    by (rule filter_none_of_three [OF listing(3)]) (simp_all add: stat_fails_def stats)
  have "distinct (map cod_peca ?rows)" by (simp add: distinct_index_rows)
  then have "length (map cod_peca ?rows) = card (set (map cod_peca ?rows))"
    by (simp only: distinct_card)
  also have "set (map cod_peca ?rows) = {''PN-100'', ''PN-200''}"
    by (simp only: keys_index_rows dirs) simp
  finally have rows: "length ?rows = 2" by (simp only: two length_map)
  have paths: "map_of (code_paths ?rows)
      = [''PN-100'' \<mapsto> path_join [nas_root, ''PN-100''], ''PN-200'' \<mapsto> path_join [nas_root, ''PN-200'']]"
    by (rule code_paths_two_directories [OF dirs])
  show ?thesis unfolding run by (simp add: indexed failed rows paths)
qed

theorem indexer_two_directories_one_file_witness:
  "indexedCount (startIndexing sample_fs ''/nas'' 9 empty_catalogue) = 2
   \<and> errorCount (startIndexing sample_fs ''/nas'' 9 empty_catalogue) = 0
   \<and> length (catalogo_pecas (store (startIndexing sample_fs ''/nas'' 9 empty_catalogue))) = 2
   \<and> map_of (code_paths (catalogo_pecas (store (startIndexing sample_fs ''/nas'' 9 empty_catalogue))))
       = [''PN-100'' \<mapsto> ''/nas/PN-100'', ''PN-200'' \<mapsto> ''/nas/PN-200'']"
proof -
  have paths: "path_join [''/nas'', ''PN-100''] = ''/nas/PN-100''"
    "path_join [''/nas'', ''PN-200''] = ''/nas/PN-200''"
    "path_join [''/nas'', ''readme.txt''] = ''/nas/readme.txt''"
    by (simp_all add: path_simps)
  have "indexedCount (startIndexing sample_fs ''/nas'' 9 empty_catalogue) = 2
       \<and> errorCount (startIndexing sample_fs ''/nas'' 9 empty_catalogue) = 0
       \<and> length (catalogo_pecas (store (startIndexing sample_fs ''/nas'' 9 empty_catalogue))) = 2
       \<and> map_of (code_paths (catalogo_pecas (store (startIndexing sample_fs ''/nas'' 9 empty_catalogue))))
           = [''PN-100'' \<mapsto> path_join [''/nas'', ''PN-100''],
              ''PN-200'' \<mapsto> path_join [''/nas'', ''PN-200'']]"
    by (rule indexer_two_directories_one_file
          [where items = "[''PN-100'', ''PN-200'', ''readme.txt'']"])
       (simp_all add: paths sample_fs_def sample_db_def empty_catalogue_def)
  then show ?thesis by (simp only: paths)
qed

text \<open>
  C2 as the spec states it fails on the skipped-count: on the sample NAS, which is the spec's
  scenario, the run reports 0 and not 1.
\<close>

theorem indexer_skipped_count_counterexample:
  "indexedCount (startIndexing sample_fs ''/nas'' 9 empty_catalogue) = 2
   \<and> code_paths (catalogo_pecas (store (startIndexing sample_fs ''/nas'' 9 empty_catalogue)))
       = [(''PN-100'', ''/nas/PN-100''), (''PN-200'', ''/nas/PN-200'')]
   \<and> errorCount (startIndexing sample_fs ''/nas'' 9 empty_catalogue) = 0
   \<and> errorCount (startIndexing sample_fs ''/nas'' 9 empty_catalogue) \<noteq> 1"
  by (simp add: indexer_simps path_simps)

text \<open>
  C9. Running the Indexer a second time over the same root (same listing, same answers of
  \<open>fs.stat\<close>, same health of the store) leaves the catalogue's part codes and paths as
  the first run left them, row for row, and reports the same counters; only timestamps
  change, and the timestamp of every directory indexed is the second run's. An upsert
  overwrites the path of its code and touches no other code, and the codes of the catalogue
  stay distinct, so a code has exactly one path.
\<close>

theorem indexer_idempotent:
  "code_paths (catalogo_pecas (store (startIndexing fs nas_root now2
       (store (startIndexing fs nas_root now1 db)))))
     = code_paths (catalogo_pecas (store (startIndexing fs nas_root now1 db)))
   \<and> indexedCount (startIndexing fs nas_root now2 (store (startIndexing fs nas_root now1 db)))
     = indexedCount (startIndexing fs nas_root now1 db)
   \<and> errorCount (startIndexing fs nas_root now2 (store (startIndexing fs nas_root now1 db)))
     = errorCount (startIndexing fs nas_root now1 db)
   \<and> (distinct (map cod_peca (catalogo_pecas db)) \<longrightarrow>
        distinct (map cod_peca (catalogo_pecas (store (startIndexing fs nas_root now2
          (store (startIndexing fs nas_root now1 db)))))))
   \<and> map_of (code_paths (upsert_peca cod caminho now rows)) = (map_of (code_paths rows))(cod \<mapsto> caminho)
   \<and> (connect_error db = None \<and> query_error db = None \<and> readdir fs nas_root = Inr items
        \<and> item \<in> set items \<and> stat_isDirectory fs (path_join [nas_root, item]) = Inr True \<longrightarrow>
        map_of (code_stamps (catalogo_pecas (store (startIndexing fs nas_root now2
          (store (startIndexing fs nas_root now1 db)))))) item = Some now2)"
proof -
  let ?first = "startIndexing fs nas_root now1 db"
  let ?second = "startIndexing fs nas_root now2 (store ?first)"
  consider (down) err where "connect_error db = Some err"
    | (unreadable) err where "connect_error db = None" "readdir fs nas_root = Inl err"
    | (failing) err items where "connect_error db = None" "readdir fs nas_root = Inr items"
        "query_error db = Some err"
    | (ok) items where "connect_error db = None" "readdir fs nas_root = Inr items"
        "query_error db = None"
    by (cases "connect_error db"; cases "readdir fs nas_root"; cases "query_error db") auto
  then have runs: "code_paths (catalogo_pecas (store ?second)) = code_paths (catalogo_pecas (store ?first))
      \<and> indexedCount ?second = indexedCount ?first \<and> errorCount ?second = errorCount ?first
      \<and> (distinct (map cod_peca (catalogo_pecas db)) \<longrightarrow>
            distinct (map cod_peca (catalogo_pecas (store ?second))))"
  proof cases
    case down
    then show ?thesis by (simp add: startIndexing_def)
  next
    case unreadable
    then show ?thesis by (simp add: startIndexing_def)
  next
    case failing
    then show ?thesis by (simp add: startIndexing_query_error)
  next
    case ok
    let ?dirs = "filter (is_directory fs nas_root) items"
    have first: "?first = \<lparr>store = db\<lparr>catalogo_pecas := index_rows nas_root now1 (catalogo_pecas db) ?dirs\<rparr>,
        indexedCount = length ?dirs, errorCount = length (filter (stat_fails fs nas_root) items)\<rparr>"
      using ok by (simp add: startIndexing_ok)
    have second: "?second = \<lparr>store = db\<lparr>catalogo_pecas :=
            index_rows nas_root now2 (index_rows nas_root now1 (catalogo_pecas db) ?dirs) ?dirs\<rparr>,
        indexedCount = length ?dirs, errorCount = length (filter (stat_fails fs nas_root) items)\<rparr>"
      unfolding first using ok by (simp add: startIndexing_ok)
    show ?thesis unfolding second unfolding first
      by (simp add: index_rows_idempotent distinct_index_rows)
  qed
  have stamps: "map_of (code_stamps (catalogo_pecas (store ?second))) item = Some now2"
    if "connect_error db = None" "query_error db = None" "readdir fs nas_root = Inr items"
      "item \<in> set items" "stat_isDirectory fs (path_join [nas_root, item]) = Inr True"
  proof -
    have "store ?first = db\<lparr>catalogo_pecas := index_rows nas_root now1 (catalogo_pecas db)
             (filter (is_directory fs nas_root) items)\<rparr>"
      using that by (simp add: startIndexing_ok)
    then have "store ?second = db\<lparr>catalogo_pecas := index_rows nas_root now2
          (index_rows nas_root now1 (catalogo_pecas db) (filter (is_directory fs nas_root) items))
          (filter (is_directory fs nas_root) items)\<rparr>"
      using that by (simp add: startIndexing_ok)
    then show ?thesis using that by (simp add: stamps_index_rows is_directory_def)
  qed
  from runs stamps show ?thesis by (simp add: map_of_code_paths_upsert)
qed

theorem indexer_idempotent_witness:
  "code_paths (catalogo_pecas (store (startIndexing sample_fs ''/nas'' 20
       (store (startIndexing sample_fs ''/nas'' 9 sample_db)))))
     = [(''PN-200'', ''/nas/PN-200''), (''PN-100'', ''/nas/PN-100'')]
   \<and> code_paths (catalogo_pecas (store (startIndexing sample_fs ''/nas'' 9 sample_db)))
     = [(''PN-200'', ''/nas/PN-200''), (''PN-100'', ''/nas/PN-100'')]
   \<and> distinct (map cod_peca (catalogo_pecas (store (startIndexing sample_fs ''/nas'' 20
          (store (startIndexing sample_fs ''/nas'' 9 sample_db))))))
   \<and> map_of (code_stamps (catalogo_pecas (store (startIndexing sample_fs ''/nas'' 20
          (store (startIndexing sample_fs ''/nas'' 9 sample_db)))))) ''PN-100'' = Some 20"
proof -
  have first: "code_paths (catalogo_pecas (store (startIndexing sample_fs ''/nas'' 9 sample_db)))
     = [(''PN-200'', ''/nas/PN-200''), (''PN-100'', ''/nas/PN-100'')]"
    by (simp add: indexer_simps path_simps)
  have env: "connect_error sample_db = None" "query_error sample_db = None"
    "readdir sample_fs ''/nas'' = Inr [''PN-100'', ''PN-200'', ''readme.txt'']"
    "stat_isDirectory sample_fs (path_join [''/nas'', ''PN-100'']) = Inr True"
    "distinct (map cod_peca (catalogo_pecas sample_db))"
    by (simp_all add: sample_fs_def sample_db_def path_simps)
  from indexer_idempotent [of sample_fs "''/nas''" 20 9 sample_db _ _ _ _
      "[''PN-100'', ''PN-200'', ''readme.txt'']" "''PN-100''"] first env
  show ?thesis by simp
qed

section \<open>Properties of path.join and of StreamPhoto\<close>

text \<open>Splitting and joining at the separator.\<close>

lemma split_sep_not_Nil [simp]: "split_sep p \<noteq> []"
  by (induction p) (auto split: list.splits)

lemma split_sep_no_slash: "s \<in> set (split_sep p) \<Longrightarrow> no_slash s"
  by (induction p arbitrary: s) (auto simp: no_slash_def split: list.splits if_splits)

lemma split_sep_single: "no_slash s \<Longrightarrow> split_sep s = [s]"
  by (induction s) (auto simp: no_slash_def)

lemma split_sep_append:
  "no_slash s \<Longrightarrow> split_sep (s @ CHR ''/'' # rest) = s # split_sep rest"
  by (induction s) (auto simp: no_slash_def)

lemma split_sep_glue:
  "split_sep (p @ CHR ''/'' # q) = split_sep p @ split_sep q"
  by (induction p) (auto split: list.splits)

lemma split_join:
  "segs \<noteq> [] \<Longrightarrow> \<forall>s\<in>set segs. no_slash s \<Longrightarrow> split_sep (join_sep segs) = segs"
  by (induction segs rule: join_sep.induct) (auto simp: split_sep_single split_sep_append)

lemma plain_not_up: "plain s \<Longrightarrow> \<not> is_up s"
  by (simp add: plain_def)

lemma up_no_slash: "is_up s \<Longrightarrow> no_slash s"
  by (simp add: is_up_def no_slash_def)

lemma segment_skip: "seg = [] \<or> seg = ''.'' \<Longrightarrow> normalize_segment allow res seg = res"
  by (auto simp: normalize_segment_def)

lemma segment_up:
  "is_up seg \<Longrightarrow> normalize_segment allow res seg
     = (if res \<noteq> [] \<and> \<not> is_up (last res) then butlast res
        else if allow then res @ [seg] else res)"
  by (simp add: normalize_segment_def is_up_def)

lemma segment_plain: "plain seg \<Longrightarrow> normalize_segment allow res seg = res @ [seg]"
  by (simp add: normalize_segment_def is_up_def plain_def)

lemma segment_kinds:
  "no_slash seg \<Longrightarrow> seg = [] \<or> seg = ''.'' \<or> is_up seg \<or> plain seg"
  by (simp add: plain_def) blast

lemma normal_form_Nil [simp]: "normal_form allow []"
  by (simp add: normal_form_def)

lemma last_dropWhile: "dropWhile P xs \<noteq> [] \<Longrightarrow> last (dropWhile P xs) = last xs"
  by (metis last_appendR takeWhile_dropWhile_id)

lemma normal_form_all_up:
  assumes "normal_form allow res" "res \<noteq> []" "is_up (last res)"
  shows "\<forall>s\<in>set res. is_up s"
proof (rule ccontr)
  assume "\<not> (\<forall>s\<in>set res. is_up s)"
  then have ne: "dropWhile is_up res \<noteq> []" by (simp add: dropWhile_eq_Nil_conv)
  then have "last (dropWhile is_up res) \<in> set (dropWhile is_up res)" by simp
  then have "plain (last (dropWhile is_up res))" using assms(1) by (simp add: normal_form_def)
  then have "\<not> is_up (last res)" using ne by (simp add: last_dropWhile plain_not_up)
  then show False using assms(3) by simp
qed

lemma normal_form_snoc_plain:
  assumes "normal_form allow res" "plain seg"
  shows "normal_form allow (res @ [seg])"
proof (cases "\<forall>s\<in>set res. is_up s")
  case True
  then have "dropWhile is_up (res @ [seg]) = [seg]"
    using assms(2) by (simp add: dropWhile_append2 plain_not_up)
  then show ?thesis using assms by (auto simp: normal_form_def plain_not_up)
next
  case False
  then obtain x where "x \<in> set res" "\<not> is_up x" by auto
  then have "dropWhile is_up (res @ [seg]) = dropWhile is_up res @ [seg]"
    by (simp add: dropWhile_append1)
  then show ?thesis using assms by (auto simp: normal_form_def plain_not_up)
qed

lemma normal_form_snoc_up:
  assumes "normal_form True res" "res = [] \<or> is_up (last res)" "is_up seg"
  shows "normal_form True (res @ [seg])"
proof -
  have "\<forall>s\<in>set res. is_up s"
    using assms normal_form_all_up [of True res] by (cases "res = []") auto
  then have "dropWhile is_up (res @ [seg]) = []"
    using assms(3) by (simp add: dropWhile_eq_Nil_conv)
  then show ?thesis by (simp add: normal_form_def)
qed

lemma normal_form_butlast:
  assumes "normal_form allow res" "res \<noteq> []" "\<not> is_up (last res)"
  shows "normal_form allow (butlast res)"
proof -
  have res: "butlast res @ [last res] = res" using assms(2) by simp
  have sub: "set (butlast res) \<subseteq> set res" by (auto dest: in_set_butlastD)
  have "set (dropWhile is_up (butlast res)) \<subseteq> set (dropWhile is_up res)"
  proof (cases "\<forall>s\<in>set (butlast res). is_up s")
    case True
    then have none: "dropWhile is_up (butlast res) = []" by (simp add: dropWhile_eq_Nil_conv)
    show ?thesis unfolding none by simp
  next
    case False
    then obtain x where "x \<in> set (butlast res)" "\<not> is_up x" by auto
    then have "dropWhile is_up (butlast res @ [last res])
        = dropWhile is_up (butlast res) @ [last res]"
      by (simp add: dropWhile_append1)
    then have "dropWhile is_up res = dropWhile is_up (butlast res) @ [last res]"
      by (simp only: res)
    then show ?thesis by (metis set_append sup_ge1)
  qed
  then show ?thesis using assms(1) sub unfolding normal_form_def by blast
qed

lemma normal_form_segment:
  assumes "normal_form allow res" "no_slash seg"
  shows "normal_form allow (normalize_segment allow res seg)"
proof -
  consider (skip) "seg = [] \<or> seg = ''.''" | (up) "is_up seg" | (name) "plain seg"
    using segment_kinds [OF assms(2)] by blast
  then show ?thesis
  proof cases
    case skip
    then show ?thesis using assms(1) by (simp only: segment_skip)
  next
    case up
    show ?thesis
    proof (cases "res \<noteq> [] \<and> \<not> is_up (last res)")
      case True
      then have "normalize_segment allow res seg = butlast res"
        by (simp add: segment_up [OF up])
      then show ?thesis using True assms(1) normal_form_butlast [of allow res] by simp
    next
      case False
      then have edge: "res = [] \<or> is_up (last res)" by blast
      have step: "normalize_segment allow res seg = (if allow then res @ [seg] else res)"
        using False by (auto simp: segment_up [OF up])
      show ?thesis
      proof (cases allow)
        case True
        then show ?thesis using step assms(1) normal_form_snoc_up [OF _ edge up] by simp
      next
        case False
        then show ?thesis using step assms(1) by simp
      qed
    qed
  next
    case name
    then show ?thesis using assms(1) normal_form_snoc_plain [of allow res seg]
      by (simp add: segment_plain)
  qed
qed

lemma normal_form_foldl:
  "normal_form allow res \<Longrightarrow> \<forall>s\<in>set segs. no_slash s
     \<Longrightarrow> normal_form allow (foldl (normalize_segment allow) res segs)"
  by (induction segs arbitrary: res) (simp_all add: normal_form_segment)

lemma normal_form_normalizeString:
  "\<forall>s\<in>set segs. no_slash s \<Longrightarrow> normal_form allow (normalizeString allow segs)"
  by (simp add: normalizeString_def normal_form_foldl)

lemma normal_form_resolved: "normal_form (\<not> isAbsolute p) (resolved p)"
  by (simp add: resolved_def normal_form_normalizeString split_sep_no_slash)


lemma normal_form_member:
  assumes "normal_form allow segs" "s \<in> set segs"
  shows "is_up s \<or> plain s"
proof -
  from assms(2) have "s \<in> set (takeWhile is_up segs @ dropWhile is_up segs)" by simp
  then have "s \<in> set (takeWhile is_up segs) \<or> s \<in> set (dropWhile is_up segs)"
    by (simp only: set_append Un_iff)
  then consider "s \<in> set (takeWhile is_up segs)" | "s \<in> set (dropWhile is_up segs)"
    by (rule disjE)
  then show ?thesis
  proof cases
    case 1
    from set_takeWhileD [OF this] show ?thesis by simp
  next
    case 2
    then show ?thesis using assms(1) by (simp add: normal_form_def)
  qed
qed

lemma normal_form_no_slash:
  assumes "normal_form allow segs"
  shows "\<forall>s\<in>set segs. no_slash s"
proof
  fix s assume "s \<in> set segs"
  from normal_form_member [OF assms this] show "no_slash s"
    by (auto simp: up_no_slash plain_def)
qed

lemma normal_form_before_up:
  assumes "normal_form allow (res @ seg # rest)" "is_up seg"
  shows "allow \<and> (res = [] \<or> is_up (last res))"
proof -
  have allow using assms by (auto simp: normal_form_def)
  moreover have "is_up x" if "x \<in> set res" for x
  proof (rule ccontr)
    assume "\<not> is_up x"
    then have "dropWhile is_up (res @ seg # rest) = dropWhile is_up res @ seg # rest"
      using that by (simp add: dropWhile_append1)
    then have "seg \<in> set (dropWhile is_up (res @ seg # rest))" by simp
    then have "plain seg" using assms(1) by (simp add: normal_form_def)
    then show False using assms(2) by (simp add: plain_not_up)
  qed
  ultimately show ?thesis by (cases "res = []") auto
qed

lemma foldl_normal_form:
  "normal_form allow (res @ segs) \<Longrightarrow> foldl (normalize_segment allow) res segs = res @ segs"
proof (induction segs arbitrary: res)
  case Nil
  then show ?case by simp
next
  case (Cons seg rest)
  have "is_up seg \<or> plain seg" using normal_form_member [OF Cons.prems] by simp
  then have step: "normalize_segment allow res seg = res @ [seg]"
  proof
    assume up: "is_up seg"
    from normal_form_before_up [OF Cons.prems up] show ?thesis
      by (auto simp: segment_up [OF up])
  next
    assume "plain seg"
    then show ?thesis by (rule segment_plain)
  qed
  have "normal_form allow ((res @ [seg]) @ rest)" using Cons.prems by simp
  from Cons.IH [OF this] show ?case by (simp add: step)
qed

lemma normalizeString_normal_form:
  "normal_form allow segs \<Longrightarrow> normalizeString allow segs = segs"
  using foldl_normal_form [of allow "[]" segs] by (simp add: normalizeString_def)

lemma segment_other:
  "seg \<noteq> [] \<Longrightarrow> seg \<noteq> ''.'' \<Longrightarrow> \<not> is_up seg \<Longrightarrow> normalize_segment allow res seg = res @ [seg]"
  by (simp add: normalize_segment_def is_up_def)

lemma foldl_without_up:
  "\<forall>s\<in>set segs. \<not> is_up s \<Longrightarrow>
   foldl (normalize_segment allow) res segs = res @ filter (\<lambda>s. s \<noteq> [] \<and> s \<noteq> ''.'') segs"
proof (induction segs arbitrary: res)
  case Nil
  then show ?case by simp
next
  case (Cons seg rest)
  show ?case
  proof (cases "seg = [] \<or> seg = ''.''")
    case True
    then have "normalize_segment allow res seg = res" by (rule segment_skip)
    then show ?thesis using True Cons by auto
  next
    case False
    then have "normalize_segment allow res seg = res @ [seg]"
      using Cons.prems by (simp add: segment_other)
    then show ?thesis using False Cons by auto
  qed
qed

lemma normalizeString_padded:
  assumes "normal_form allow segs"
    and lead: "lead = [] \<or> lead = [[]]" and trail: "trail = [] \<or> trail = [[]]"
  shows "normalizeString allow (lead @ segs @ trail) = segs"
proof -
  have skip: "normalize_segment allow res [] = res" for res by (simp add: segment_skip)
  have "foldl (normalize_segment allow) [] (lead @ segs @ trail)
      = foldl (normalize_segment allow) (foldl (normalize_segment allow) [] segs) trail"
    using lead by (auto simp: skip)
  also have "\<dots> = foldl (normalize_segment allow) segs trail"
    using foldl_normal_form [of allow "[]" segs] assms(1) by simp
  also have "\<dots> = segs" using trail by (auto simp: skip)
  finally show ?thesis by (simp add: normalizeString_def)
qed


lemma join_sep_head:
  "segs \<noteq> [] \<Longrightarrow> hd segs \<noteq> [] \<Longrightarrow> join_sep segs \<noteq> [] \<and> hd (join_sep segs) = hd (hd segs)"
  by (induction segs rule: join_sep.induct) auto

lemma normal_form_head:
  assumes "normal_form allow segs" "segs \<noteq> []"
  shows "hd segs \<noteq> [] \<and> hd (hd segs) \<noteq> CHR ''/''"
proof -
  have "hd segs \<in> set segs" using assms(2) by simp
  from normal_form_member [OF assms(1) this] show ?thesis
    by (cases "hd segs") (auto simp: is_up_def plain_def no_slash_def)
qed

lemma isAbsolute_append: "p \<noteq> [] \<Longrightarrow> isAbsolute (p @ q) = isAbsolute p"
  by (cases p) (simp_all add: isAbsolute_def)

lemma isAbsolute_normalize: "isAbsolute (path_normalize p) = isAbsolute p"
proof (cases "p = [] \<or> resolved p = [] \<or> isAbsolute p")
  case True
  then show ?thesis by (auto simp: path_normalize_def isAbsolute_def)
next
  case False
  then have segs: "resolved p \<noteq> []" and rel: "\<not> isAbsolute p" and "p \<noteq> []" by simp_all
  from normal_form_head [OF normal_form_resolved segs]
  have "join_sep (resolved p) \<noteq> [] \<and> hd (join_sep (resolved p)) \<noteq> CHR ''/''"
    using join_sep_head [OF segs] by simp
  then have "\<not> isAbsolute (join_sep (resolved p) @ rest)" for rest
    by (cases "join_sep (resolved p)") (simp_all add: isAbsolute_def)
  then show ?thesis using False by (simp add: path_normalize_def)
qed

lemma resolved_literals:
  "resolved ''.'' = []" "resolved ''/'' = []" "resolved ''./'' = []" "resolved [] = []"
  by (simp_all add: resolved_def normalizeString_def normalize_segment_def isAbsolute_def)

lemma resolved_normalize: "resolved (path_normalize p) = resolved p"
proof (cases "p = [] \<or> resolved p = []")
  case True
  then show ?thesis by (auto simp: path_normalize_def resolved_literals)
next
  case False
  let ?segs = "resolved p"
  let ?lead = "if isAbsolute p then [[]] else []"
  let ?trail = "if trailingSeparator p then [[]] else []"
  have nf: "normal_form (\<not> isAbsolute p) ?segs" by (rule normal_form_resolved)
  have split: "split_sep (join_sep ?segs) = ?segs"
    using False normal_form_no_slash [OF nf] by (simp add: split_join)
  have out: "path_normalize p = (if isAbsolute p then ''/'' else []) @ join_sep ?segs
      @ (if trailingSeparator p then ''/'' else [])"
    using False by (simp add: path_normalize_def)
  have "split_sep (path_normalize p) = ?lead @ ?segs @ ?trail"
    unfolding out using split split_sep_glue [of "join_sep ?segs" "[]"] by simp
  then have "resolved (path_normalize p) = normalizeString (\<not> isAbsolute p) (?lead @ ?segs @ ?trail)"
    by (simp only: resolved_def isAbsolute_normalize)
  also have "\<dots> = ?segs" by (rule normalizeString_padded [OF nf]) simp_all
  finally show ?thesis .
qed

lemma resolved_joined:
  assumes "dir \<noteq> []" "\<forall>s\<in>set (split_sep file). \<not> is_up s"
  shows "resolved (dir @ CHR ''/'' # file)
     = resolved dir @ filter (\<lambda>s. s \<noteq> [] \<and> s \<noteq> ''.'') (split_sep file)"
  using assms foldl_without_up [of "split_sep file"]
  by (simp add: resolved_def normalizeString_def isAbsolute_append split_sep_glue)

lemma path_join_inside:
  assumes "dir \<noteq> []" "''..'' \<notin> set (split_sep file)"
  shows "inside_dir dir (path_join [dir, file])"
proof (cases "file = []")
  case True
  then have "path_join [dir, file] = path_normalize dir"
    using assms(1) by (simp add: path_join_def)
  then show ?thesis by (simp add: inside_dir_def isAbsolute_normalize resolved_normalize)
next
  case False
  then have joined: "path_join [dir, file] = path_normalize (dir @ CHR ''/'' # file)"
    using assms(1) by (simp add: path_join_def)
  have "\<forall>s\<in>set (split_sep file). \<not> is_up s" using assms(2) by (auto simp: is_up_def)
  from resolved_joined [OF assms(1) this] show ?thesis
    using assms by (simp add: joined inside_dir_def isAbsolute_normalize resolved_normalize
        isAbsolute_append)
qed

text \<open>
  C1 (as the code has it). For a part code present in the Catalog Index and any requested
  filename, an authenticated StreamPhoto request reads the file at the path that
  \<open>path.join\<close> makes of the stored directory path and the filename, and no other. When
  that file is read to its end the answer is 200 with exactly its bytes; when it cannot be
  opened the answer is 500 and names that path; and the answer is the same on any two file
  systems that agree on that one path. When the stored path is not empty and the filename
  has no \<open>..\<close> segment, that path lies inside the indexed directory.
\<close>

theorem photo_reads_joined_path:
  assumes "verifyToken jwt_verify req = Next user"
    and "pool_query db (\<lambda>d. select_caminho_nas d (param_codPeca req)) = Inr (caminho # others)"
  shows "(\<forall>bytes. createReadStream fs (path_join [caminho, param_filename req]) = Read_ok bytes \<longrightarrow>
            photo_route jwt_verify mime_lookup db fs req
              = \<lparr>status = 200,
                 body = File_stream (case mime_lookup (param_filename req) of
                                       Some mimeType \<Rightarrow> mimeType | None \<Rightarrow> ''image/jpeg'')
                          bytes True\<rparr>)
       \<and> (\<forall>code. createReadStream fs (path_join [caminho, param_filename req])
                    = Read_failed [] code \<longrightarrow>
            photo_route jwt_verify mime_lookup db fs req
              = \<lparr>status = 500,
                 body = Error_json Erro_ao_ler_arquivo (Some code)
                          (Some (path_join [caminho, param_filename req]))\<rparr>)
       \<and> (\<forall>fs'. createReadStream fs' (path_join [caminho, param_filename req])
                    = createReadStream fs (path_join [caminho, param_filename req]) \<longrightarrow>
            photo_route jwt_verify mime_lookup db fs' req
              = photo_route jwt_verify mime_lookup db fs req)
       \<and> (caminho \<noteq> [] \<and> ''..'' \<notin> set (split_sep (param_filename req)) \<longrightarrow>
            inside_dir caminho (path_join [caminho, param_filename req]))"
proof -
  let ?path = "path_join [caminho, param_filename req]"
  have route: "photo_route jwt_verify mime_lookup db any_fs req
      = photo_handler mime_lookup db any_fs req" for any_fs
    using assms(1) by (simp add: photo_route_def)
  have inside: "inside_dir caminho ?path"
    if "caminho \<noteq> [] \<and> ''..'' \<notin> set (split_sep (param_filename req))"
    using that by (auto intro: path_join_inside)
  have same: "photo_handler mime_lookup db fs' req = photo_handler mime_lookup db fs req"
    if "createReadStream fs' ?path = createReadStream fs ?path" for fs'
    using assms(2) that by (simp add: photo_handler_def)
  have whole: "photo_handler mime_lookup db fs req
      = \<lparr>status = 200,
         body = File_stream (case mime_lookup (param_filename req) of
                               Some mimeType \<Rightarrow> mimeType | None \<Rightarrow> ''image/jpeg'')
                  bytes True\<rparr>"
    if "createReadStream fs ?path = Read_ok bytes" for bytes
    using assms(2) that by (simp add: photo_handler_def)
  have closed: "photo_handler mime_lookup db fs req
      = \<lparr>status = 500, body = Error_json Erro_ao_ler_arquivo (Some code) (Some ?path)\<rparr>"
    if "createReadStream fs ?path = Read_failed [] code" for code
    using assms(2) that by (simp add: photo_handler_def)
  show ?thesis unfolding route
  proof (intro conjI allI impI)
    fix bytes
    assume "createReadStream fs ?path = Read_ok bytes"
    then show "photo_handler mime_lookup db fs req
      = \<lparr>status = 200,
         body = File_stream (case mime_lookup (param_filename req) of
                               Some mimeType \<Rightarrow> mimeType | None \<Rightarrow> ''image/jpeg'')
                  bytes True\<rparr>"
      by (rule whole)
  next
    fix code
    assume "createReadStream fs ?path = Read_failed [] code"
    then show "photo_handler mime_lookup db fs req
      = \<lparr>status = 500, body = Error_json Erro_ao_ler_arquivo (Some code) (Some ?path)\<rparr>"
      by (rule closed)
  next
    fix fs' :: filesystem
    assume "createReadStream fs' ?path = createReadStream fs ?path"
    then show "photo_handler mime_lookup db fs' req = photo_handler mime_lookup db fs req"
      by (rule same)
  next
    assume "caminho \<noteq> [] \<and> ''..'' \<notin> set (split_sep (param_filename req))"
    then show "inside_dir caminho ?path" by (rule inside)
  qed
qed

theorem photo_reads_joined_path_witness:
  "photo_route sample_jwt_verify sample_mime sample_db sample_fs (photo_request ''a.jpg'')
     = \<lparr>status = 200, body = File_stream ''image/jpeg'' [255, 216, 255] True\<rparr>
   \<and> photo_route sample_jwt_verify sample_mime sample_db sample_fs (photo_request ''b.png'')
     = \<lparr>status = 500,
        body = Error_json Erro_ao_ler_arquivo (Some ''ENOENT'') (Some ''/nas/PN-100/b.png'')\<rparr>
   \<and> photo_route sample_jwt_verify sample_mime sample_db locked_fs (photo_request ''a.jpg'')
     = photo_route sample_jwt_verify sample_mime sample_db sample_fs (photo_request ''a.jpg'')
   \<and> inside_dir ''/nas/PN-100'' ''/nas/PN-100/a.jpg''"
proof -
  have path: "path_join [''/nas/PN-100'', ''a.jpg''] = ''/nas/PN-100/a.jpg''"
    "path_join [''/nas/PN-100'', ''b.png''] = ''/nas/PN-100/b.png''"
    by (simp_all add: path_simps)
  have token: "verifyToken sample_jwt_verify (photo_request fname)
      = Next \<lparr>tok_id = 1, tok_usuario = ''ana''\<rparr>" for fname
    by (simp add: photo_request_def no_request_def token_simps value_simps)
  have rows: "pool_query sample_db (\<lambda>d. select_caminho_nas d (param_codPeca (photo_request fname)))
      = Inr [''/nas/PN-100'']" for fname
    by (simp add: photo_request_def no_request_def pool_query_def client_query_def
        select_caminho_nas_def sample_db_def)
  have name: "param_filename (photo_request fname) = fname" for fname
    by (simp add: photo_request_def no_request_def)
  have streams: "createReadStream sample_fs ''/nas/PN-100/a.jpg'' = Read_ok [255, 216, 255]"
    "createReadStream sample_fs ''/nas/PN-100/b.png'' = Read_failed [] ''ENOENT''"
    "createReadStream locked_fs ''/nas/PN-100/a.jpg'' = Read_ok [255, 216, 255]"
    by (simp_all add: sample_fs_def locked_fs_def)
  have mime: "sample_mime ''a.jpg'' = Some ''image/jpeg''"
    by (simp add: sample_mime_def)
  have segments: "''..'' \<notin> set (split_sep ''a.jpg'')" by simp
  note a = photo_reads_joined_path [OF token [of "''a.jpg''"] rows [of "''a.jpg''"],
      where fs = sample_fs and mime_lookup = sample_mime]
  note b = photo_reads_joined_path [OF token [of "''b.png''"] rows [of "''b.png''"],
      where fs = sample_fs and mime_lookup = sample_mime]
  from a have "photo_route sample_jwt_verify sample_mime sample_db sample_fs (photo_request ''a.jpg'')
       = \<lparr>status = 200, body = File_stream ''image/jpeg'' [255, 216, 255] True\<rparr>"
    by (simp add: name path streams mime)
  moreover from b have "photo_route sample_jwt_verify sample_mime sample_db sample_fs
        (photo_request ''b.png'')
     = \<lparr>status = 500,
        body = Error_json Erro_ao_ler_arquivo (Some ''ENOENT'') (Some ''/nas/PN-100/b.png'')\<rparr>"
    by (simp add: name path streams)
  moreover from a have "photo_route sample_jwt_verify sample_mime sample_db locked_fs
        (photo_request ''a.jpg'')
     = photo_route sample_jwt_verify sample_mime sample_db sample_fs (photo_request ''a.jpg'')"
    by (simp add: name path streams)
  moreover from a segments have "inside_dir ''/nas/PN-100'' ''/nas/PN-100/a.jpg''"
    by (simp add: name path)
  ultimately show ?thesis by simp
qed

text \<open>
  C1 as the spec states it fails: for the indexed part PN-100 the filename
  \<open>../PN-200/secret.jpg\<close> resolves to a file outside the directory of PN-100, and its
  bytes are streamed with status 200.
\<close>

theorem photo_traversal_counterexample:
  "pool_query sample_db (\<lambda>d. select_caminho_nas d ''PN-100'') = Inr [''/nas/PN-100'']
   \<and> path_join [''/nas/PN-100'', ''../PN-200/secret.jpg''] = ''/nas/PN-200/secret.jpg''
   \<and> \<not> inside_dir ''/nas/PN-100'' ''/nas/PN-200/secret.jpg''
   \<and> photo_route sample_jwt_verify sample_mime sample_db sample_fs
        (photo_request ''../PN-200/secret.jpg'')
     = \<lparr>status = 200, body = File_stream ''image/jpeg'' [7, 7, 7] True\<rparr>"
proof -
  have path: "path_join [''/nas/PN-100'', ''../PN-200/secret.jpg''] = ''/nas/PN-200/secret.jpg''"
    by (simp add: path_simps)
  have outside: "\<not> inside_dir ''/nas/PN-100'' ''/nas/PN-200/secret.jpg''"
    by (simp add: path_simps)
  have rows: "pool_query sample_db (\<lambda>d. select_caminho_nas d ''PN-100'') = Inr [''/nas/PN-100'']"
    by (simp add: pool_query_def client_query_def select_caminho_nas_def sample_db_def)
  have "photo_route sample_jwt_verify sample_mime sample_db sample_fs
        (photo_request ''../PN-200/secret.jpg'')
     = \<lparr>status = 200, body = File_stream ''image/jpeg'' [7, 7, 7] True\<rparr>"
    using rows
    by (simp add: photo_route_def photo_handler_def path photo_request_def no_request_def
        token_simps value_simps sample_mime_def sample_fs_def)
  with path outside rows show ?thesis by simp
qed

end
